theory Spec2Isabelle
  imports Main "HOL-Library.Sublist"
begin

section \<open>Python primitives used by EasyTweeter.py\<close>

text \<open>
  Strings are \<open>string\<close> (lists of characters); Python's unbounded integers are \<open>int\<close>.
  \<open>str(n)\<close> on an integer is the decimal rendering, \<open>int(s)\<close> is Python's parser (surrounding
  white space, an optional sign, decimal digits with single underscores between digits) and
  raises \<open>ValueError\<close> on anything else, which is \<open>None\<close> here.
\<close>

definition digit_char :: "nat \<Rightarrow> char" where
  "digit_char d = ''0123456789'' ! d"

fun str_nat :: "nat \<Rightarrow> string" where
  "str_nat n = (if n < 10 then [digit_char n] else str_nat (n div 10) @ [digit_char (n mod 10)])"

declare str_nat.simps [simp del]

definition str_int :: "int \<Rightarrow> string" where
  "str_int i = (if i < 0 then CHR ''-'' # str_nat (nat (- i)) else str_nat (nat i))"

definition is_digit :: "char \<Rightarrow> bool" where
  "is_digit c = (48 \<le> (of_char c :: nat) \<and> (of_char c :: nat) \<le> 57)"

definition digit_val :: "char \<Rightarrow> nat" where
  "digit_val c = of_char c - 48"

definition is_space :: "char \<Rightarrow> bool" where
  "is_space c = (let k = (of_char c :: nat) in (9 \<le> k \<and> k \<le> 13) \<or> (28 \<le> k \<and> k \<le> 32))"

text \<open>\<open>s.strip()\<close>: white space removed at both ends.\<close>

definition strip :: "string \<Rightarrow> string" where
  "strip s = rev (dropWhile is_space (rev (dropWhile is_space s)))"

text \<open>
  The digits of an integer literal: \<open>seen\<close> says that the previous character was a digit, so
  that an underscore is accepted only between two digits.
\<close>

fun py_digits :: "nat \<Rightarrow> bool \<Rightarrow> string \<Rightarrow> nat option" where
  "py_digits acc seen [] = (if seen then Some acc else None)"
| "py_digits acc seen (c # cs) =
     (if is_digit c then py_digits (10 * acc + digit_val c) True cs
      else if c = CHR ''_'' \<and> seen then py_digits acc False cs
      else None)"

definition py_int :: "string \<Rightarrow> int option" where
  "py_int s =
     (case strip s of
        [] \<Rightarrow> None
      | c # cs \<Rightarrow>
          if c = CHR ''-'' then map_option (\<lambda>n. - int n) (py_digits 0 False cs)
          else if c = CHR ''+'' then map_option int (py_digits 0 False cs)
          else map_option int (py_digits 0 False (c # cs)))"

text \<open>\<open>p in s\<close> on strings: \<open>p\<close> occurs in \<open>s\<close> as a contiguous substring.\<close>

fun py_in :: "string \<Rightarrow> string \<Rightarrow> bool" where
  "py_in p [] = (p = [])"
| "py_in p (c # cs) = (prefix p (c # cs) \<or> py_in p cs)"

text \<open>
  \<open>s.lower()\<close> on the ASCII letters, which is what \<open>ConfigParser.optionxform\<close> applies to
  every option name.
\<close>

definition lower_char :: "char \<Rightarrow> char" where
  "lower_char c =
     (case map_of (zip ''ABCDEFGHIJKLMNOPQRSTUVWXYZ'' ''abcdefghijklmnopqrstuvwxyz'') c of
        None \<Rightarrow> c
      | Some l \<Rightarrow> l)"

definition optionxform :: "string \<Rightarrow> string" where
  "optionxform option = map lower_char option"

section \<open>Data: remote items, exceptions, the state directory, the remote\<close>

text \<open>
  What the program reads of a tweepy status or direct message (\<open>.id\<close>, \<open>.favorite_count\<close>,
  \<open>.in_reply_to_user_id\<close>) and of a follower (\<open>.id\<close>, \<open>.screen_name\<close>).
\<close>

record status =
  item_id :: int
  favorite_count :: int
  in_reply_to_user_id :: "int option"

record user =
  user_id :: int
  screen_name :: string

text \<open>
  The exceptions the program raises or lets through. \<open>RateLimitError\<close> is a subclass of
  \<open>TweepError\<close> in tweepy and both carry a \<open>reason\<close>; the three interpolation errors are
  what \<open>configparser\<close> raises when an option's value is read; \<open>OtherError\<close> stands for whatever
  else a collaborator raises (a missing credentials file, for instance).
\<close>

datatype exn =
    ValueError
  | TypeError
  | KeyError
  | InterpolationSyntaxError
  | InterpolationMissingOptionError
  | InterpolationDepthError
  | TweepError string
  | RateLimitError string
  | RateLimitRetriesExceeded
  | MissingPermissionsError
  | OtherError string

text \<open>
  \<open>known\<close> in \<open>checkFavorites\<close> is the integer \<open>0\<close> for a post without a ledger entry and the
  stored string otherwise; the comparison \<open>str(msg.favorite_count) != known\<close> is between Python
  values.
\<close>

datatype pyval = PyInt int | PyStr string

text \<open>
  A \<open>ConfigParser\<close> after \<open>read_file\<close>: sections by name, each a map from option names, held
  in lower case as \<open>optionxform\<close> leaves them, to the raw values. The \<open>DEFAULT\<close> section and
  files that \<open>read_file\<close> rejects are outside the model. \<open>followers.txt\<close> is its list of
  lines.
\<close>

type_synonym ini_section = "string \<rightharpoonup> string"
type_synonym ini = "string \<rightharpoonup> ini_section"

datatype endpoint = RetweetsOfMe | HomeTimeline | DirectMessages | Followers | UserTimeline

datatype state_file = UpdateCheckInterval_ini | Latest_ini | Followers_txt | Favorites_ini

text \<open>
  What an observer sees of a run, in order: remote calls, sleeps, writes of state files and
  calls of the hook methods (with their default bodies, which only log). Logging is not
  modelled.
\<close>

datatype event =
    Authenticate
  | UpdateStatus "string option"
  | RateLimitStatus
  | Request endpoint "string option" nat
  | Me
  | Sleep int
  | Write state_file
  | HandleTweet status
  | HandleNewFollower user
  | HandleFavorite status pyval
  | HandleReply status
  | HandleRetweet status
  | HandleDM status

text \<open>
  The object (\<open>self.api\<close>, \<open>self.sleep\<close>, \<open>self.retries\<close>) together with the state directory
  (\<open>None\<close> for a file that does not exist) and the events so far.
\<close>

record world =
  api :: bool
  sleep :: int
  retries :: int
  state_dir :: bool
  interval_file :: "ini option"
  latest_file :: "ini option"
  followers_file :: "string list option"
  favorites_file :: "ini option"
  trace :: "event list"

text \<open>
  Modelled from the spec: the Feed Client (tweepy and the remote service, which are not part
  of the repository). A feed holds the items the remote would list, in the order it lists
  them; \<open>breaks = Some (n, e)\<close> makes its cursor raise \<open>e\<close> once \<open>n\<close> items have been yielded
  and another one is asked for (\<open>n = 0\<close>: the first request fails).
\<close>

datatype 'a feed = Feed (held: "'a list") (breaks: "(nat \<times> exn) option")

record remote =
  connect_failure :: "exn option"
  update_status :: "nat \<Rightarrow> string option \<Rightarrow> exn + status"
  me :: "exn + int"
  retweets_of_me :: "status feed"
  home_timeline :: "status feed"
  direct_messages :: "status feed"
  followers :: "user feed"
  user_timeline :: "status feed"

type_synonym 'a result = "(exn + 'a) \<times> world"

section \<open>Helpers of the embedding\<close>

definition emit :: "event \<Rightarrow> world \<Rightarrow> world" where
  "emit e w = w\<lparr>trace := trace w @ [e]\<rparr>"

text \<open>Sequencing: an exception ends the run with the world as it is at that point.\<close>

definition and_then :: "'a result \<Rightarrow> ('a \<Rightarrow> world \<Rightarrow> 'b result) \<Rightarrow> 'b result" where
  "and_then r f = (case r of (Inl e, w) \<Rightarrow> (Inl e, w) | (Inr x, w) \<Rightarrow> f x w)"

text \<open>
  Modelled from the spec: \<open>tweepy.Cursor(method, since_id = last).items(limit)\<close>. The remote
  lists the items newer than the marker ("filtered server-side by since marker"); a marker
  that is not an integer is refused by the remote. \<open>items(limit)\<close> stops after \<open>limit\<close> items,
  and tweepy reads a limit of \<open>0\<close> as no limit.
\<close>

definition listed :: "status feed \<Rightarrow> string option \<Rightarrow> exn + status list" where
  "listed f since =
     (case since of
        None \<Rightarrow> Inr (held f)
      | Some s \<Rightarrow>
          (case py_int s of
             None \<Rightarrow> Inl (TweepError ''status code = 400'')
           | Some m \<Rightarrow> Inr (filter (\<lambda>x. m < item_id x) (held f))))"

definition items :: "'a list \<Rightarrow> (nat \<times> exn) option \<Rightarrow> nat \<Rightarrow> 'a list \<times> exn option" where
  "items avail brk limit =
     (case brk of
        None \<Rightarrow> (if limit = 0 then avail else take limit avail, None)
      | Some (n, e) \<Rightarrow>
          if (limit = 0 \<or> n < limit) \<and> n \<le> length avail then (take n avail, Some e)
          else (if limit = 0 then avail else take limit avail, None))"

definition cursor :: "status feed \<Rightarrow> string option \<Rightarrow> nat \<Rightarrow> status list \<times> exn option" where
  "cursor f since limit =
     (case listed f since of
        Inl e \<Rightarrow> ([], Some e)
      | Inr avail \<Rightarrow> items avail (breaks f) limit)"

section \<open>Reading an option: \<open>config[section][option]\<close>\<close>

text \<open>
  \<open>reference rest\<close> reads what follows \<open>%(\<close> in a value: the pattern \<open>%\(([^)]+)\)s\<close> of
  \<open>BasicInterpolation\<close> asks for a non-empty name, a closing parenthesis and the letter
  \<open>s\<close>, and gives the name and the text after the reference.
\<close>

definition reference :: "string \<Rightarrow> (string \<times> string) option" where
  "reference rest =
     (case dropWhile (\<lambda>c. c \<noteq> CHR '')'') rest of
        close # s # rest' \<Rightarrow>
          if takeWhile (\<lambda>c. c \<noteq> CHR '')'') rest \<noteq> [] \<and> s = CHR ''s''
          then Some (takeWhile (\<lambda>c. c \<noteq> CHR '')'') rest, rest')
          else None
      | _ \<Rightarrow> None)"

text \<open>
  \<open>BasicInterpolation._interpolate_some\<close>, the loop over one value: \<open>%%\<close> stands for a percent
  sign, \<open>%(name)s\<close> for the value of the option \<open>name\<close> of the same section (interpolated in
  turn, one level deeper, when it contains a percent sign), and any other percent sign is an
  \<open>InterpolationSyntaxError\<close>. \<open>deeper\<close> is the call for the next level.
\<close>

function interpolate_some ::
  "(string \<Rightarrow> exn + string) \<Rightarrow> ini_section \<Rightarrow> string \<Rightarrow> exn + string" where
  "interpolate_some deeper sec [] = Inr []"
| "interpolate_some deeper sec (c # cs) =
     (if c \<noteq> CHR ''%'' then
        (case interpolate_some deeper sec cs of Inl e \<Rightarrow> Inl e | Inr t \<Rightarrow> Inr (c # t))
      else case cs of
        [] \<Rightarrow> Inl InterpolationSyntaxError
      | d # ds \<Rightarrow>
          if d = CHR ''%'' then
            (case interpolate_some deeper sec ds of
               Inl e \<Rightarrow> Inl e
             | Inr t \<Rightarrow> Inr (CHR ''%'' # t))
          else if d = CHR ''('' then
            (case reference ds of
               None \<Rightarrow> Inl InterpolationSyntaxError
             | Some (name, rest) \<Rightarrow>
                 (case sec (optionxform name) of
                    None \<Rightarrow> Inl InterpolationMissingOptionError
                  | Some v \<Rightarrow>
                      (case (if CHR ''%'' \<in> set v then deeper v else Inr v) of
                         Inl e \<Rightarrow> Inl e
                       | Inr t \<Rightarrow>
                           (case interpolate_some deeper sec rest of
                              Inl e \<Rightarrow> Inl e
                            | Inr u \<Rightarrow> Inr (t @ u)))))
          else Inl InterpolationSyntaxError)"
  by pat_completeness auto
termination
  apply (relation "measure (\<lambda>(deeper, sec, s). length s)")
     apply simp_all
  subgoal for deeper sec c cs d ds x name rest
    using length_dropWhile_le [of "\<lambda>c. c \<noteq> CHR '')''" ds]
    by (auto simp: reference_def split: list.splits if_splits)
  done

text \<open>
  The levels of interpolation: \<open>MAX_INTERPOLATION_DEPTH\<close> is 10, and the eleventh level raises
  \<open>InterpolationDepthError\<close>.
\<close>

primrec interpolate :: "nat \<Rightarrow> ini_section \<Rightarrow> string \<Rightarrow> exn + string" where
  "interpolate 0 sec v = Inl InterpolationDepthError"
| "interpolate (Suc depth) sec v = interpolate_some (interpolate depth sec) sec v"

text \<open>
  \<open>config[section][option]\<close> on a section that exists: \<open>KeyError\<close> when the section has no such
  option, and the interpolated value otherwise.
\<close>

definition get_option :: "ini_section \<Rightarrow> string \<Rightarrow> exn + string" where
  "get_option sec option =
     (case sec (optionxform option) of
        None \<Rightarrow> Inl KeyError
      | Some v \<Rightarrow> interpolate 10 sec v)"

section \<open>The class EasyTweeter\<close>

definition CHARACTER_LIMIT :: nat where
  "CHARACTER_LIMIT = 280"

text \<open>
  \<open>__init__\<close>: a new object over the state directory a previous process left behind.
\<close>

definition init :: "int \<Rightarrow> int \<Rightarrow> world \<Rightarrow> world" where
  "init secondsSleepWhenRateLimited rateLimitRetries disk =
     disk\<lparr>api := False,
          sleep := (if secondsSleepWhenRateLimited < 0 then 0 else secondsSleepWhenRateLimited),
          retries := (if rateLimitRetries < 1 then 1 else rateLimitRetries)\<rparr>"

definition initState :: "world \<Rightarrow> world" where
  "initState w = (if \<not> state_dir w then w\<lparr>state_dir := True\<rparr> else w)"

text \<open>
  \<open>connectFromConfig\<close> followed by \<open>connect\<close>: one authentication against the remote, which
  sets \<open>self.api\<close> when it succeeds.
\<close>

definition connectFromConfig :: "remote \<Rightarrow> world \<Rightarrow> unit result" where
  "connectFromConfig rem w =
     (let w1 = emit Authenticate w in
      case connect_failure rem of
        Some e \<Rightarrow> (Inl e, w1)
      | None \<Rightarrow> (Inr (), w1\<lparr>api := True\<rparr>))"

text \<open>The opening of every check: \<open>if self.api == None: self.connectFromConfig(...)\<close>.\<close>

definition ensure_connected :: "remote \<Rightarrow> world \<Rightarrow> unit result" where
  "ensure_connected rem w = (if \<not> api w then connectFromConfig rem w else (Inr (), w))"

subsection \<open>\<open>_shouldCheckUpdates\<close>\<close>

text \<open>
  The configuration read from \<open>UpdateCheckInterval.ini\<close>, empty when there is no such file,
  and the block "does the file contain the right values?": the lookup of \<open>last\<close> stands
  outside the \<open>try\<close>, so what it raises leaves the method.
\<close>

definition interval_config :: "world \<Rightarrow> ini" where
  "interval_config w = (case interval_file w of None \<Rightarrow> Map.empty | Some c \<Rightarrow> c)"

definition load_interval :: "ini \<Rightarrow> exn + int" where
  "load_interval config =
     (case config ''Update Check Interval'' of
        None \<Rightarrow> Inr 0
      | Some sec \<Rightarrow>
          (case sec (optionxform ''last'') of
             None \<Rightarrow> Inr 0
           | Some _ \<Rightarrow>
               (case get_option sec ''last'' of
                  Inl e \<Rightarrow> Inl e
                | Inr loaded \<Rightarrow> Inr (case py_int loaded of None \<Rightarrow> 0 | Some n \<Rightarrow> n))))"

definition shouldCheckUpdates :: "int \<Rightarrow> world \<Rightarrow> bool result" where
  "shouldCheckUpdates runInterval w =
     (let config = interval_config w in
      case load_interval config of
        Inl e \<Rightarrow> (Inl e, w)
      | Inr loaded \<Rightarrow>
          (let toRun = \<not> (loaded > 0);
               toSave = (if loaded > 0 then loaded - 1 else runInterval);
               config' = config(''Update Check Interval'' \<mapsto>
                            [optionxform ''last'' \<mapsto> str_int toSave])
           in (Inr toRun, emit (Write UpdateCheckInterval_ini)
                            ((initState w)\<lparr>interval_file := Some config'\<rparr>))))"

subsection \<open>\<open>tweet\<close>\<close>

text \<open>
  The retry loop: \<open>retry\<close> attempts are left and \<open>k\<close> submissions were made before. The debug
  line of the rate-limit branch calls \<open>self.api.rate_limit_status()\<close>.
\<close>

fun tweet_loop :: "remote \<Rightarrow> string option \<Rightarrow> nat \<Rightarrow> nat \<Rightarrow> world \<Rightarrow> (status option) result" where
  "tweet_loop rem message 0 k w = (Inr None, w)"
| "tweet_loop rem message (Suc retry) k w =
     (let w1 = emit (UpdateStatus message) w in
      case update_status rem k message of
        Inr t \<Rightarrow> (Inr (Some t), w1)
      | Inl (RateLimitError r) \<Rightarrow>
          (let w2 = emit RateLimitStatus w1 in
           if retry > 0 then tweet_loop rem message retry (Suc k) (emit (Sleep (sleep w2)) w2)
           else (Inl RateLimitRetriesExceeded, w2))
      | Inl e \<Rightarrow> (Inl e, w1))"

text \<open>
  The checks of the message are the \<open>elif\<close> branches of \<open>if self.api == None\<close>. The message of
  the over-limit \<open>ValueError\<close> concatenates a string and the integer \<open>CHARACTER_LIMIT\<close>, which
  raises \<open>TypeError\<close> before the \<open>ValueError\<close> exists.
\<close>

definition tweet_checks :: "remote \<Rightarrow> string option \<Rightarrow> world \<Rightarrow> unit result" where
  "tweet_checks rem message w =
     (if \<not> api w then connectFromConfig rem w
      else case message of
        None \<Rightarrow> (Inl ValueError, w)
      | Some m \<Rightarrow>
          if length m > CHARACTER_LIMIT then (Inl TypeError, w)
          else if length m \<le> 0 then (Inl ValueError, w)
          else (Inr (), w))"

definition tweet :: "remote \<Rightarrow> string option \<Rightarrow> world \<Rightarrow> unit result" where
  "tweet rem message w =
     and_then (tweet_checks rem message w) (\<lambda>_ w1.
     and_then (tweet_loop rem message (nat (retries w1)) 0 w1) (\<lambda>posted w2.
       case posted of
         None \<Rightarrow> (Inr (), w2)
       | Some t \<Rightarrow> (Inr (), emit (HandleTweet t) w2)))"

subsection \<open>The marker file \<open>latest.ini\<close>\<close>

text \<open>
  The block "load the latest message to look for", which \<open>checkRetweets\<close>, \<open>checkReplies\<close> and
  \<open>checkDirectMessages\<close> each spell out with their own section name: the marker and the
  configuration read. \<open>config[sec]['LatestSeen']\<close> raises \<open>KeyError\<close> when the section has no
  such option, and an interpolation error when its value cannot be interpolated.
\<close>

definition loadLatest :: "string \<Rightarrow> world \<Rightarrow> (string option \<times> ini) result" where
  "loadLatest sec w =
     (let w1 = initState w in
      case latest_file w1 of
        None \<Rightarrow> (Inr (None, Map.empty), w1)
      | Some config \<Rightarrow>
          (case config sec of
             None \<Rightarrow> (Inr (None, config), w1)
           | Some s \<Rightarrow>
               (case get_option s ''LatestSeen'' of
                  Inl e \<Rightarrow> (Inl e, w1)
                | Inr v \<Rightarrow> (Inr (Some v, config), w1))))"

text \<open>
  The block "save off the latest ... we got" and the loop over the hook: nothing is written
  when there are no new messages; otherwise the marker is the identifier of the first one.
\<close>

definition saveLatest :: "string \<Rightarrow> ini \<Rightarrow> status list \<Rightarrow> world \<Rightarrow> world" where
  "saveLatest sec config newMessages w =
     (case newMessages of
        [] \<Rightarrow> w
      | m # _ \<Rightarrow>
          emit (Write Latest_ini)
            (w\<lparr>latest_file :=
                 Some (config(sec \<mapsto> [optionxform ''LatestSeen'' \<mapsto> str_int (item_id m)]))\<rparr>))"

definition notify :: "('a \<Rightarrow> event) \<Rightarrow> 'a list \<Rightarrow> world \<Rightarrow> world" where
  "notify hook xs w = w\<lparr>trace := trace w @ map hook xs\<rparr>"

text \<open>\<open>newMessages.sort(key=lambda x: x.id, reverse=True)\<close>: stable, largest identifier first.\<close>

definition sort_desc :: "status list \<Rightarrow> status list" where
  "sort_desc xs = sort_key (\<lambda>x. - item_id x) xs"

subsection \<open>\<open>checkRetweets\<close>\<close>

text \<open>The sort of \<open>newMessages\<close> is commented out in this method.\<close>

definition checkRetweets :: "remote \<Rightarrow> nat \<Rightarrow> world \<Rightarrow> (status list) result" where
  "checkRetweets rem maxMessagesLoaded w =
     and_then (ensure_connected rem w) (\<lambda>_ w1.
     and_then (loadLatest ''Retweets'' w1) (\<lambda>(last, config) w2.
       let w3 = emit (Request RetweetsOfMe last maxMessagesLoaded) w2 in
       case cursor (retweets_of_me rem) last maxMessagesLoaded of
         (newMessages, Some e) \<Rightarrow> (Inl e, w3)
       | (newMessages, None) \<Rightarrow>
           (Inr newMessages,
            notify HandleRetweet newMessages (saveLatest ''Retweets'' config newMessages w3))))"

subsection \<open>\<open>checkReplies\<close>\<close>

text \<open>
  The loop over the home timeline: \<open>self.api.me()\<close> is called for every item, and its failure
  ends the loop at the first one.
\<close>

definition select_replies :: "remote \<Rightarrow> status list \<Rightarrow> world \<Rightarrow> (status list) result" where
  "select_replies rem msgs w =
     (case msgs of
        [] \<Rightarrow> (Inr [], w)
      | _ # _ \<Rightarrow>
          (case me rem of
             Inl e \<Rightarrow> (Inl e, emit Me w)
           | Inr my \<Rightarrow>
               (Inr (filter (\<lambda>msg. in_reply_to_user_id msg = Some my) msgs),
                w\<lparr>trace := trace w @ replicate (length msgs) Me\<rparr>)))"

definition checkReplies :: "remote \<Rightarrow> nat \<Rightarrow> world \<Rightarrow> (status list) result" where
  "checkReplies rem maxMessagesLoaded w =
     and_then (ensure_connected rem w) (\<lambda>_ w1.
     and_then (loadLatest ''Replies'' w1) (\<lambda>(last, config) w2.
       let w3 = emit (Request HomeTimeline last maxMessagesLoaded) w2;
           (msgs, failure) = cursor (home_timeline rem) last maxMessagesLoaded
       in
       and_then (select_replies rem msgs w3) (\<lambda>replies w4.
         case failure of
           Some e \<Rightarrow> (Inl e, w4)
         | None \<Rightarrow>
             (let newMessages = sort_desc replies in
              (Inr newMessages,
               notify HandleReply newMessages (saveLatest ''Replies'' config newMessages w4))))))"

subsection \<open>\<open>checkDirectMessages\<close>\<close>

definition reason :: "exn \<Rightarrow> string option" where
  "reason e = (case e of TweepError r \<Rightarrow> Some r | RateLimitError r \<Rightarrow> Some r | _ \<Rightarrow> None)"

text \<open>
  The handler \<open>except tweepy.error.TweepError as e\<close> around the fetch: what is raised after it,
  if anything.
\<close>

definition dm_except :: "bool \<Rightarrow> exn option \<Rightarrow> exn option" where
  "dm_except failureOnMissingPermission failure =
     (case failure of
        None \<Rightarrow> None
      | Some e \<Rightarrow>
          (case reason e of
             None \<Rightarrow> Some e
           | Some r \<Rightarrow>
               if py_in ''status code = 403'' r then
                 (if failureOnMissingPermission then Some MissingPermissionsError else None)
               else Some e))"

definition checkDirectMessages :: "remote \<Rightarrow> nat \<Rightarrow> bool \<Rightarrow> world \<Rightarrow> (status list) result" where
  "checkDirectMessages rem maxMessagesLoaded failureOnMissingPermission w =
     and_then (ensure_connected rem w) (\<lambda>_ w1.
     and_then (loadLatest ''DirectMessages'' w1) (\<lambda>(last, config) w2.
       let w3 = emit (Request DirectMessages last maxMessagesLoaded) w2;
           (fetched, failure) = cursor (direct_messages rem) last maxMessagesLoaded
       in
       case dm_except failureOnMissingPermission failure of
         Some e \<Rightarrow> (Inl e, w3)
       | None \<Rightarrow>
           (let newMessages = sort_desc fetched in
            (Inr newMessages,
             notify HandleDM newMessages (saveLatest ''DirectMessages'' config newMessages w3)))))"

subsection \<open>\<open>checkNewFollowers\<close>\<close>

text \<open>
  The block "load up the list of known followers": the stripped lines of \<open>followers.txt\<close>, or
  nothing when the file does not exist.
\<close>

definition known_followers :: "world \<Rightarrow> string list" where
  "known_followers w = (case followers_file w of None \<Rightarrow> [] | Some ls \<Rightarrow> map strip ls)"

text \<open>
  The loop over the current followers: \<open>knownFollowers\<close> and \<open>newFollowers\<close> grow together.
\<close>

fun scan_followers :: "user list \<Rightarrow> string list \<Rightarrow> user list \<Rightarrow> string list \<times> user list" where
  "scan_followers [] knownFollowers newFollowers = (knownFollowers, newFollowers)"
| "scan_followers (follower # rest) knownFollowers newFollowers =
     (if str_int (user_id follower) \<notin> set knownFollowers then
        scan_followers rest (knownFollowers @ [str_int (user_id follower)])
          (newFollowers @ [follower])
      else scan_followers rest knownFollowers newFollowers)"

definition checkNewFollowers :: "remote \<Rightarrow> nat \<Rightarrow> world \<Rightarrow> (user list) result" where
  "checkNewFollowers rem maxFollowersChecked w =
     and_then (ensure_connected rem w) (\<lambda>_ w1.
       let w2 = initState w1;
           knownFollowers = known_followers w2;
           w3 = emit (Request Followers None maxFollowersChecked) w2;
           (current, failure) =
             items (held (followers rem)) (breaks (followers rem)) maxFollowersChecked;
           (knownFollowers', newFollowers) = scan_followers current knownFollowers []
       in
       case failure of
         Some e \<Rightarrow> (Inl e, w3)
       | None \<Rightarrow>
           (let w4 = (if newFollowers = [] then w3
                      else emit (Write Followers_txt)
                             (w3\<lparr>followers_file := Some knownFollowers'\<rparr>))
            in (Inr newFollowers, notify HandleNewFollower newFollowers w4)))"

subsection \<open>\<open>checkFavorites\<close>\<close>

text \<open>
  The block "load the favorite file": the parsed \<open>favorites.ini\<close>, or an empty configuration
  when the file does not exist. \<open>config[str(msg.id)]['favorites']\<close> raises \<open>KeyError\<close> for a
  section without that option, and an interpolation error for a value that cannot be
  interpolated.
\<close>

definition ledger :: "world \<Rightarrow> ini" where
  "ledger w = (case favorites_file w of None \<Rightarrow> Map.empty | Some c \<Rightarrow> c)"

definition known_favorites :: "ini \<Rightarrow> status \<Rightarrow> exn + pyval" where
  "known_favorites config msg =
     (case config (str_int (item_id msg)) of
        None \<Rightarrow> Inr (PyInt 0)
      | Some sec \<Rightarrow>
          (case get_option sec ''favorites'' of
             Inl e \<Rightarrow> Inl e
           | Inr v \<Rightarrow> Inr (PyStr v)))"

fun scan_favorites ::
  "status list \<Rightarrow> ini \<Rightarrow> (status \<times> pyval) list \<Rightarrow> exn + (ini \<times> (status \<times> pyval) list)" where
  "scan_favorites [] config newFavorites = Inr (config, newFavorites)"
| "scan_favorites (msg # rest) config newFavorites =
     (if favorite_count msg > 0 then
        (case known_favorites config msg of
           Inl e \<Rightarrow> Inl e
         | Inr known \<Rightarrow>
             if PyStr (str_int (favorite_count msg)) \<noteq> known then
               scan_favorites rest
                 (config(str_int (item_id msg) \<mapsto>
                    [optionxform ''favorites'' \<mapsto> str_int (favorite_count msg)]))
                 (newFavorites @ [(msg, known)])
             else scan_favorites rest config newFavorites)
      else scan_favorites rest config newFavorites)"

definition checkFavorites :: "remote \<Rightarrow> nat \<Rightarrow> world \<Rightarrow> ((status \<times> pyval) list) result" where
  "checkFavorites rem maxMessagesLoaded w =
     and_then (ensure_connected rem w) (\<lambda>_ w1.
       let w2 = initState w1;
           config = ledger w2;
           w3 = emit (Request UserTimeline None maxMessagesLoaded) w2;
           (msgs, failure) =
             items (held (user_timeline rem)) (breaks (user_timeline rem)) maxMessagesLoaded
       in
       case scan_favorites msgs config [] of
         Inl e \<Rightarrow> (Inl e, w3)
       | Inr (config', newFavorites) \<Rightarrow>
           (case failure of
              Some e \<Rightarrow> (Inl e, w3)
            | None \<Rightarrow>
                (let w4 = (if newFavorites = [] then w3
                           else emit (Write Favorites_ini) (w3\<lparr>favorites_file := Some config'\<rparr>))
                 in (Inr newFavorites,
                     notify (\<lambda>newFavorite. HandleFavorite (fst newFavorite) (snd newFavorite))
                       newFavorites w4))))"

subsection \<open>\<open>checkForUpdates\<close>\<close>

text \<open>
  The body of \<open>if runInterval <= 0 or check\<close>: authentication if needed, then the enabled checks
  with their default arguments, in the order of the source. The results are dropped.
\<close>

definition run_checks :: "remote \<Rightarrow> bool \<Rightarrow> bool \<Rightarrow> bool \<Rightarrow> bool \<Rightarrow> bool \<Rightarrow> world \<Rightarrow> unit result" where
  "run_checks rem retweets newFollowers replies favorites directMessages w =
     and_then (ensure_connected rem w) (\<lambda>_ w1.
     and_then (if retweets then checkRetweets rem 50 w1 else (Inr [], w1)) (\<lambda>_ w2.
     and_then (if newFollowers then checkNewFollowers rem 50 w2 else (Inr [], w2)) (\<lambda>_ w3.
     and_then (if favorites then checkFavorites rem 50 w3 else (Inr [], w3)) (\<lambda>_ w4.
     and_then (if directMessages then checkDirectMessages rem 50 False w4 else (Inr [], w4)) (\<lambda>_ w5.
     and_then (if replies then checkReplies rem 100 w5 else (Inr [], w5)) (\<lambda>_ w6.
       (Inr (), w6)))))))"

definition checkForUpdates ::
  "remote \<Rightarrow> int \<Rightarrow> bool \<Rightarrow> bool \<Rightarrow> bool \<Rightarrow> bool \<Rightarrow> bool \<Rightarrow> world \<Rightarrow> unit result" where
  "checkForUpdates rem runInterval retweets newFollowers replies favorites directMessages w =
     and_then (shouldCheckUpdates runInterval w) (\<lambda>check w1.
       if runInterval \<le> 0 \<or> check then
         run_checks rem retweets newFollowers replies favorites directMessages w1
       else (Inr (), w1))"

section \<open>Observations and example data\<close>

text \<open>
  The marker persisted for a feature and the persisted cadence counter, as the files hold
  them.
\<close>

definition marker :: "string \<Rightarrow> world \<Rightarrow> string option" where
  "marker sec w =
     (case latest_file w of
        None \<Rightarrow> None
      | Some config \<Rightarrow>
          (case config sec of None \<Rightarrow> None | Some s \<Rightarrow> s (optionxform ''LatestSeen'')))"

definition counter :: "world \<Rightarrow> string option" where
  "counter w =
     (case interval_file w of
        None \<Rightarrow> None
      | Some config \<Rightarrow>
          (case config ''Update Check Interval'' of
             None \<Rightarrow> None
           | Some s \<Rightarrow> s (optionxform ''last'')))"

text \<open>The section of \<open>latest.ini\<close> that belongs to a feature.\<close>

definition latest_section :: "string \<Rightarrow> world \<Rightarrow> ini_section option" where
  "latest_section sec w = (case latest_file w of None \<Rightarrow> None | Some config \<Rightarrow> config sec)"

text \<open>
  An authenticated object over an empty state directory, and a remote that lists three
  retweets and three direct messages with the identifiers 5, 9, 3 in that order and one own
  post with two favorites.
\<close>

definition example_world :: world where
  "example_world =
     \<lparr>api = True, sleep = 960, retries = 2, state_dir = True, interval_file = None,
      latest_file = None, followers_file = None, favorites_file = None, trace = []\<rparr>"

definition item :: "int \<Rightarrow> status" where
  "item i = \<lparr>item_id = i, favorite_count = 0, in_reply_to_user_id = None\<rparr>"

definition example_remote :: remote where
  "example_remote =
     \<lparr>connect_failure = None,
      update_status = (\<lambda>k message. Inr (item 1)),
      me = Inr 7,
      retweets_of_me = Feed [item 5, item 9, item 3] None,
      home_timeline = Feed [] None,
      direct_messages = Feed [item 5, item 9, item 3] None,
      followers = Feed [] None,
      user_timeline = Feed [\<lparr>item_id = 11, favorite_count = 2, in_reply_to_user_id = None\<rparr>] None\<rparr>"

text \<open>A remote whose direct-message endpoint answers the first request with error 403.\<close>

definition denied_remote :: remote where
  "denied_remote =
     example_remote\<lparr>direct_messages :=
       Feed [item 5, item 9] (Some (0, TweepError ''Twitter error response: status code = 403''))\<rparr>"

text \<open>
  A remote whose direct-message endpoint yields one message and answers the next request
  with error 403.
\<close>

definition late_denied_remote :: remote where
  "late_denied_remote =
     example_remote\<lparr>direct_messages :=
       Feed [item 5, item 9] (Some (1, TweepError ''Twitter error response: status code = 403''))\<rparr>"

text \<open>
  A remote that lists the followers 21, 22 and 21 again, and a state directory whose
  \<open>followers.txt\<close> knows 22.
\<close>

definition followed_remote :: remote where
  "followed_remote =
     example_remote\<lparr>followers :=
       Feed [\<lparr>user_id = 21, screen_name = ''ann''\<rparr>, \<lparr>user_id = 22, screen_name = ''bob''\<rparr>,
             \<lparr>user_id = 21, screen_name = ''ann''\<rparr>] None\<rparr>"

definition followed_world :: world where
  "followed_world = example_world\<lparr>followers_file := Some [''22'']\<rparr>"

text \<open>
  A remote whose own timeline lists the posts 11, 12, 13 and 14 with 5, 3, 2 and 0 favorites,
  and a ledger that records 3 favorites for each of the posts 11, 12 and 14.
\<close>

definition post :: "int \<Rightarrow> int \<Rightarrow> status" where
  "post i c = \<lparr>item_id = i, favorite_count = c, in_reply_to_user_id = None\<rparr>"

definition favorite_remote :: remote where
  "favorite_remote =
     example_remote\<lparr>user_timeline := Feed [post 11 5, post 12 3, post 13 2, post 14 0] None\<rparr>"

definition favorite_world :: world where
  "favorite_world =
     example_world\<lparr>favorites_file :=
       Some [''11'' \<mapsto> [''favorites'' \<mapsto> ''3''], ''12'' \<mapsto> [''favorites'' \<mapsto> ''3''],
             ''14'' \<mapsto> [''favorites'' \<mapsto> ''3'']]\<rparr>"

section \<open>Facts about the primitives\<close>

lemma digit_cases:
  "d < 10 \<Longrightarrow> d = 0 \<or> d = 1 \<or> d = 2 \<or> d = 3 \<or> d = 4 \<or> d = 5 \<or> d = 6 \<or> d = 7 \<or> d = 8 \<or> d = (9::nat)"
  by arith

lemma is_digit_digit_char: "d < 10 \<Longrightarrow> is_digit (digit_char d)"
  using digit_cases [of d] by (auto simp: is_digit_def digit_char_def)

lemma digit_val_digit_char: "d < 10 \<Longrightarrow> digit_val (digit_char d) = d"
  using digit_cases [of d] by (auto simp: digit_val_def digit_char_def)

lemma not_space_digit_char: "d < 10 \<Longrightarrow> \<not> is_space (digit_char d)"
  using digit_cases [of d] by (auto simp: is_space_def digit_char_def Let_def)

lemma str_nat_not_Nil: "str_nat n \<noteq> []"
  by (subst str_nat.simps) simp

lemma py_digits_str_nat:
  "py_digits acc seen (str_nat n @ rest) = py_digits (acc * 10 ^ length (str_nat n) + n) True rest"
proof (induction n arbitrary: acc seen rest rule: str_nat.induct)
  case (1 n)
  show ?case
  proof (cases "n < 10")
    case True
    then show ?thesis
      by (subst (1 2) str_nat.simps)
         (simp add: is_digit_digit_char digit_val_digit_char mult.commute)
  next
    case False
    have split: "str_nat n = str_nat (n div 10) @ [digit_char (n mod 10)]"
      using False by (subst str_nat.simps) simp
    have "py_digits acc seen (str_nat n @ rest) =
          py_digits acc seen (str_nat (n div 10) @ (digit_char (n mod 10) # rest))"
      by (simp add: split)
    also have "\<dots> = py_digits (acc * 10 ^ length (str_nat (n div 10)) + n div 10) True
                       (digit_char (n mod 10) # rest)"
      using "1.IH" [OF False] by simp
    also have "\<dots> = py_digits (10 * (acc * 10 ^ length (str_nat (n div 10)) + n div 10) + n mod 10)
                       True rest"
      by (simp add: is_digit_digit_char digit_val_digit_char)
    also have "10 * (acc * 10 ^ length (str_nat (n div 10)) + n div 10) + n mod 10 =
               acc * 10 ^ length (str_nat n) + n"
      by (simp add: split algebra_simps)
    finally show ?thesis .
  qed
qed

lemma py_digits_str_nat_all: "py_digits 0 False (str_nat n) = Some n"
  using py_digits_str_nat [of 0 False n "[]"] by simp

lemma hd_str_nat_digit: "\<exists>d cs. d < 10 \<and> str_nat n = digit_char d # cs"
proof (induction n rule: str_nat.induct)
  case (1 n)
  show ?case
  proof (cases "n < 10")
    case True
    then show ?thesis by (subst str_nat.simps) auto
  next
    case False
    from "1.IH" [OF False] obtain d cs where "d < 10" "str_nat (n div 10) = digit_char d # cs"
      by blast
    then show ?thesis using False by (subst str_nat.simps) auto
  qed
qed

lemma last_str_nat_digit: "\<exists>d. d < 10 \<and> last (str_nat n) = digit_char d"
proof (cases "n < 10")
  case True
  then have "last (str_nat n) = digit_char n" by (subst str_nat.simps) simp
  with True show ?thesis by blast
next
  case False
  then have "last (str_nat n) = digit_char (n mod 10)" by (subst str_nat.simps) simp
  moreover have "n mod 10 < 10" by simp
  ultimately show ?thesis by blast
qed

lemma strip_no_space_ends:
  assumes "s \<noteq> []" "\<not> is_space (hd s)" "\<not> is_space (last s)"
  shows "strip s = s"
proof -
  from assms have a: "dropWhile is_space s = s"
    by (cases s) auto
  from assms have "rev s \<noteq> []" "\<not> is_space (hd (rev s))"
    by (simp_all add: hd_rev)
  then have "dropWhile is_space (rev s) = rev s"
    by (cases "rev s") auto
  with a show ?thesis by (simp add: strip_def)
qed

lemma strip_str_nat: "strip (str_nat n) = str_nat n"
proof -
  obtain d cs where d: "d < 10" "str_nat n = digit_char d # cs"
    using hd_str_nat_digit by blast
  obtain e where e: "e < 10" "last (str_nat n) = digit_char e"
    using last_str_nat_digit by blast
  show ?thesis
    by (rule strip_no_space_ends)
       (use d e in \<open>simp_all add: not_space_digit_char str_nat_not_Nil\<close>)
qed

lemma strip_str_int: "strip (str_int i) = str_int i"
proof (cases "i < 0")
  case True
  obtain e where e: "e < 10" "last (str_nat (nat (- i))) = digit_char e"
    using last_str_nat_digit by blast
  have minus: "\<not> is_space CHR ''-''"
    by (simp add: is_space_def)
  have "strip (CHR ''-'' # str_nat (nat (- i))) = CHR ''-'' # str_nat (nat (- i))"
    by (rule strip_no_space_ends)
       (use e minus in \<open>simp_all add: not_space_digit_char str_nat_not_Nil\<close>)
  with True show ?thesis by (simp add: str_int_def)
next
  case False
  then show ?thesis by (simp add: str_int_def strip_str_nat)
qed

lemma py_int_str_int: "py_int (str_int i) = Some i"
proof (cases "i < 0")
  case True
  then have "str_int i = CHR ''-'' # str_nat (nat (- i))"
    by (simp add: str_int_def)
  moreover from this have "strip (str_int i) = CHR ''-'' # str_nat (nat (- i))"
    using strip_str_int [of i] by simp
  ultimately show ?thesis
    using True by (simp add: py_int_def py_digits_str_nat_all)
next
  case False
  obtain d cs where d: "d < 10" "str_nat (nat i) = digit_char d # cs"
    using hd_str_nat_digit by blast
  have s: "strip (str_int i) = digit_char d # cs"
    using False d strip_str_int [of i] by (simp add: str_int_def)
  have "digit_char d \<noteq> CHR ''-''" "digit_char d \<noteq> CHR ''+''"
    using d(1) is_digit_digit_char [of d] by (auto simp: is_digit_def)
  then have "py_int (str_int i) = map_option int (py_digits 0 False (str_nat (nat i)))"
    by (simp add: py_int_def s d(2))
  with False show ?thesis by (simp add: py_digits_str_nat_all)
qed

lemma str_int_inject: "str_int a = str_int b \<longleftrightarrow> a = b"
proof
  assume "str_int a = str_int b"
  then have "py_int (str_int a) = py_int (str_int b)" by simp
  then show "a = b" by (simp add: py_int_str_int)
qed simp

section \<open>Facts about the lookup of an option\<close>

lemma optionxform_names:
  "optionxform ''LatestSeen'' = ''latestseen''" "optionxform ''last'' = ''last''"
  "optionxform ''favorites'' = ''favorites''"
  by (simp_all add: optionxform_def lower_char_def)

lemma interpolate_some_plain: "CHR ''%'' \<notin> set v \<Longrightarrow> interpolate_some deeper sec v = Inr v"
  by (induction v) auto

text \<open>A value without a percent sign is read as it stands.\<close>

lemma get_option_unfold:
  "get_option sec option =
     (case sec (optionxform option) of
        None \<Rightarrow> Inl KeyError
      | Some v \<Rightarrow> if CHR ''%'' \<notin> set v then Inr v else interpolate 10 sec v)"
  by (simp add: get_option_def eval_nat_numeral interpolate_some_plain split: option.split)

lemma percent_not_in_str_nat: "CHR ''%'' \<notin> set (str_nat n)"
proof (induction n rule: str_nat.induct)
  case (1 n)
  have digit: "CHR ''%'' \<noteq> digit_char d" if "d < 10" for d
    using digit_cases [OF that] by (auto simp: digit_char_def)
  show ?case
  proof (cases "n < 10")
    case True
    then show ?thesis by (subst str_nat.simps) (simp add: digit)
  next
    case False
    with "1.IH" show ?thesis by (subst str_nat.simps) (simp add: digit)
  qed
qed

lemma percent_not_in_str_int [simp]: "CHR ''%'' \<notin> set (str_int i)"
  by (simp add: str_int_def percent_not_in_str_nat)

text \<open>What the program stores is read back as stored.\<close>

lemma get_option_stored [simp]:
  "get_option [optionxform option \<mapsto> str_int i] option = Inr (str_int i)"
  by (simp add: get_option_unfold)

section \<open>Evaluating the checks\<close>

lemmas run_defs =
  and_then_def ensure_connected_def connectFromConfig_def loadLatest_def initState_def
  emit_def cursor_def listed_def items_def saveLatest_def notify_def sort_desc_def
  str_int_def str_nat.simps digit_char_def example_world_def example_remote_def item_def
  marker_def counter_def get_option_unfold optionxform_names interval_config_def

lemma py_int_small:
  "py_int ''3'' = Some 3" "py_int ''2'' = Some 2" "py_int ''1'' = Some 1" "py_int ''0'' = Some 0"
  using py_int_str_int [of 3] py_int_str_int [of 2] py_int_str_int [of 1] py_int_str_int [of 0]
  by (simp_all add: str_int_def str_nat.simps digit_char_def)

subsection \<open>The marker of the retweets check\<close>

text \<open>
  Claim C1 (the marker persisted by \<open>checkRetweets\<close> and \<open>checkDirectMessages\<close> is the largest
  fetched identifier): on the fetched identifiers 5, 9, 3 \<open>checkDirectMessages\<close>, which sorts,
  persists 9, and \<open>checkRetweets\<close>, whose sort is commented out, persists the first
  identifier, 5.
\<close>

theorem checkRetweets_marker_is_first_fetched:
  "fst (checkRetweets example_remote 50 example_world) = Inr [item 5, item 9, item 3] \<and>
   marker ''Retweets'' (snd (checkRetweets example_remote 50 example_world)) = Some ''5'' \<and>
   marker ''DirectMessages'' (snd (checkDirectMessages example_remote 50 False example_world))
     = Some ''9''"
  by (simp add: checkRetweets_def checkDirectMessages_def dm_except_def run_defs)

subsection \<open>The cadence gate\<close>

text \<open>
  Claim C2 (interval 3, counter freshly reset to 3: the first and second call skip, the third
  call checks and resets the counter): the first three calls of \<open>_shouldCheckUpdates\<close> all
  return \<open>False\<close> and leave 2, 1 and 0 in the file; the fourth call returns \<open>True\<close> and
  stores 3.
\<close>

theorem shouldCheckUpdates_third_call_skips:
  "(let (r1, w1) = shouldCheckUpdates 3
                     (example_world\<lparr>interval_file :=
                        Some [''Update Check Interval'' \<mapsto> [''last'' \<mapsto> ''3'']]\<rparr>);
        (r2, w2) = shouldCheckUpdates 3 w1;
        (r3, w3) = shouldCheckUpdates 3 w2;
        (r4, w4) = shouldCheckUpdates 3 w3
    in (r1, counter w1, r2, counter w2, r3, counter w3, r4, counter w4)) =
   (Inr False, Some ''2'', Inr False, Some ''1'', Inr False, Some ''0'', Inr True, Some ''3'')"
  by (simp add: shouldCheckUpdates_def load_interval_def Let_def py_int_small run_defs)

subsection \<open>The checks of \<open>tweet\<close>\<close>

text \<open>
  Claim C3 (a message that is \<open>None\<close>, empty or longer than 280 characters makes \<open>tweet\<close> raise
  \<open>ValueError\<close> without any remote call, authenticated or not): an authenticated object given
  281 characters raises \<open>TypeError\<close>, and an object that is not authenticated, given \<open>None\<close>,
  authenticates, submits \<open>None\<close> and returns normally.
\<close>

theorem tweet_invalid_message_escapes:
  "tweet example_remote (Some (replicate 281 CHR ''a'')) example_world
     = (Inl TypeError, example_world) \<and>
   tweet example_remote None (example_world\<lparr>api := False\<rparr>)
     = (Inr (), example_world\<lparr>trace := [Authenticate, UpdateStatus None, HandleTweet (item 1)]\<rparr>)"
  by (simp add: tweet_def tweet_checks_def CHARACTER_LIMIT_def run_defs eval_nat_numeral)

subsection \<open>Incomplete state files\<close>

text \<open>
  Claim C6 (every state load replaces incomplete content by the default and raises nothing):
  a \<open>latest.ini\<close> whose section \<open>DirectMessages\<close> has no option \<open>LatestSeen\<close> makes
  \<open>checkDirectMessages\<close> raise \<open>KeyError\<close>, and a \<open>favorites.ini\<close> whose section for post 11
  has no option \<open>favorites\<close> makes \<open>checkFavorites\<close> raise \<open>KeyError\<close>.
\<close>

theorem incomplete_state_raises_KeyError:
  "fst (checkDirectMessages example_remote 50 False
          (example_world\<lparr>latest_file := Some [''DirectMessages'' \<mapsto> Map.empty]\<rparr>))
     = Inl KeyError \<and>
   fst (checkFavorites example_remote 50
          (example_world\<lparr>favorites_file := Some [''11'' \<mapsto> Map.empty]\<rparr>))
     = Inl KeyError"
  by (simp add: checkDirectMessages_def checkFavorites_def known_favorites_def ledger_def run_defs)

subsection \<open>The order of the retweet hooks\<close>

text \<open>
  Claim C9 (the state is persisted first and the hook is then called once per novel item, in
  descending order of identifier, for retweets, replies and direct messages): on the fetched
  identifiers 5, 9, 3 \<open>checkRetweets\<close> writes \<open>latest.ini\<close> and then calls \<open>handleRetweet\<close> in
  the order 5, 9, 3.
\<close>

theorem checkRetweets_hooks_in_fetch_order:
  "trace (snd (checkRetweets example_remote 50 example_world)) =
     [Request RetweetsOfMe None 50, Write Latest_ini,
      HandleRetweet (item 5), HandleRetweet (item 9), HandleRetweet (item 3)]"
  by (simp add: checkRetweets_def run_defs)

section \<open>What the checks leave unchanged\<close>

lemma and_then_Inl [simp]: "and_then (Inl e, w) f = (Inl e, w)"
  by (simp add: and_then_def)

lemma and_then_Inr [simp]: "and_then (Inr x, w) f = f x w"
  by (simp add: and_then_def)

lemma snd_and_then:
  assumes "g (snd r) = c" and "\<And>x w'. g w' = c \<Longrightarrow> g (snd (f x w')) = c"
  shows "g (snd (and_then r f)) = c"
proof (cases r)
  case (Pair a w')
  with assms show ?thesis by (cases a) simp_all
qed

lemma emit_fields [simp]:
  "api (emit e w) = api w" "sleep (emit e w) = sleep w" "retries (emit e w) = retries w"
  "state_dir (emit e w) = state_dir w"
  "interval_file (emit e w) = interval_file w" "latest_file (emit e w) = latest_file w"
  "followers_file (emit e w) = followers_file w" "favorites_file (emit e w) = favorites_file w"
  "trace (emit e w) = trace w @ [e]"
  by (simp_all add: emit_def)

lemma notify_fields [simp]:
  "api (notify h xs w) = api w"
  "interval_file (notify h xs w) = interval_file w" "latest_file (notify h xs w) = latest_file w"
  "followers_file (notify h xs w) = followers_file w"
  "favorites_file (notify h xs w) = favorites_file w"
  "trace (notify h xs w) = trace w @ map h xs"
  by (simp_all add: notify_def)

lemma initState_fields [simp]:
  "api (initState w) = api w"
  "interval_file (initState w) = interval_file w" "latest_file (initState w) = latest_file w"
  "followers_file (initState w) = followers_file w"
  "favorites_file (initState w) = favorites_file w"
  "trace (initState w) = trace w"
  by (simp_all add: initState_def)

lemma saveLatest_fields [simp]:
  "api (saveLatest sec config xs w) = api w"
  "interval_file (saveLatest sec config xs w) = interval_file w"
  "followers_file (saveLatest sec config xs w) = followers_file w"
  "favorites_file (saveLatest sec config xs w) = favorites_file w"
  by (simp_all add: saveLatest_def split: list.split)

lemma latest_file_saveLatest:
  "latest_file (saveLatest sec config xs w) =
     (case xs of [] \<Rightarrow> latest_file w
      | m # _ \<Rightarrow> Some (config(sec \<mapsto> [optionxform ''LatestSeen'' \<mapsto> str_int (item_id m)])))"
  by (simp add: saveLatest_def split: list.split)

lemma trace_saveLatest:
  "trace (saveLatest sec config xs w) = trace w @ (if xs = [] then [] else [Write Latest_ini])"
  by (simp add: saveLatest_def split: list.split)

lemma ensure_connected_cases:
  obtains (already) "api w" "ensure_connected rem w = (Inr (), w)"
  | (connected) "\<not> api w" "connect_failure rem = None"
      "ensure_connected rem w = (Inr (), (emit Authenticate w)\<lparr>api := True\<rparr>)"
  | (refused) e where "\<not> api w" "connect_failure rem = Some e"
      "ensure_connected rem w = (Inl e, emit Authenticate w)"
  by (cases "api w"; cases "connect_failure rem")
     (auto simp: ensure_connected_def connectFromConfig_def Let_def)

lemma ensure_connected_fields [simp]:
  "interval_file (snd (ensure_connected rem w)) = interval_file w"
  "latest_file (snd (ensure_connected rem w)) = latest_file w"
  "followers_file (snd (ensure_connected rem w)) = followers_file w"
  "favorites_file (snd (ensure_connected rem w)) = favorites_file w"
  by (cases rem w rule: ensure_connected_cases; simp)+

lemma snd_loadLatest [simp]: "snd (loadLatest sec w) = initState w"
  by (simp add: loadLatest_def Let_def split: option.split sum.split)

lemma loadLatest_config:
  "fst (loadLatest sec w) = Inr (since, config) \<Longrightarrow>
     config = (case latest_file w of None \<Rightarrow> Map.empty | Some c \<Rightarrow> c)"
  by (auto simp: loadLatest_def Let_def split: option.splits sum.splits)

lemma latest_section_tail:
  assumes "sec' \<noteq> sec" "config = (case latest_file w of None \<Rightarrow> Map.empty | Some c \<Rightarrow> c)"
    "latest_file w3 = latest_file w"
  shows "latest_section sec' (notify h xs (saveLatest sec config xs w3)) = latest_section sec' w"
  using assms
  by (simp add: latest_section_def latest_file_saveLatest split: list.split option.split)

lemma latest_section_cong: "latest_file w' = latest_file w \<Longrightarrow> latest_section s w' = latest_section s w"
  by (simp add: latest_section_def)


lemma latest_section_marker_check:
  assumes ne: "sec' \<noteq> sec"
    and body: "\<And>since config w2.
      latest_file (snd (body since config w2)) = latest_file w2 \<or>
      (\<exists>m. latest_file (snd (body since config w2)) = Some (config(sec \<mapsto> m)))"
  shows "latest_section sec'
           (snd (and_then (ensure_connected rem w) (\<lambda>_ w1.
                 and_then (loadLatest sec w1) (\<lambda>(since, config) w2. body since config w2))))
         = latest_section sec' w"
proof (cases "ensure_connected rem w")
  case (Pair a w1)
  then have w1: "latest_file w1 = latest_file w"
    using ensure_connected_fields(2) [of rem w] by simp
  show ?thesis
  proof (cases a)
    case (Inl e)
    with Pair w1 show ?thesis by (simp add: latest_section_def)
  next
    case (Inr u)
    obtain b w2 where l: "loadLatest sec w1 = (b, w2)" by force
    then have w2: "w2 = initState w1" using snd_loadLatest [of sec w1] by simp
    show ?thesis
    proof (cases b)
      case (Inl e)
      with Pair \<open>a = Inr u\<close> l w1 w2 show ?thesis by (simp add: latest_section_def)
    next
      case (Inr sc)
      obtain since config where sc: "sc = (since, config)" by force
      with l Inr have "fst (loadLatest sec w1) = Inr (since, config)" by simp
      then have c: "config = (case latest_file w of None \<Rightarrow> Map.empty | Some c \<Rightarrow> c)"
        using loadLatest_config w1 by metis
      have run: "snd (and_then (ensure_connected rem w) (\<lambda>_ w1.
                 and_then (loadLatest sec w1) (\<lambda>(since, config) w2. body since config w2)))
             = snd (body since config w2)"
        using Pair \<open>a = Inr u\<close> l Inr sc by simp
      from body [of since config w2] show ?thesis
      proof
        assume "latest_file (snd (body since config w2)) = latest_file w2"
        with w1 w2 show ?thesis by (simp add: run latest_section_def)
      next
        assume "\<exists>m. latest_file (snd (body since config w2)) = Some (config(sec \<mapsto> m))"
        then obtain m where "latest_file (snd (body since config w2)) = Some (config(sec \<mapsto> m))"
          by blast
        with ne c show ?thesis
          by (simp add: run latest_section_def split: option.split)
      qed
    qed
  qed
qed

lemma select_replies_fields [simp]:
  "interval_file (snd (select_replies rem msgs w)) = interval_file w"
  "latest_file (snd (select_replies rem msgs w)) = latest_file w"
  "followers_file (snd (select_replies rem msgs w)) = followers_file w"
  "favorites_file (snd (select_replies rem msgs w)) = favorites_file w"
  by (simp_all add: select_replies_def split: list.split sum.split)

lemma latest_section_checkRetweets:
  "sec' \<noteq> ''Retweets'' \<Longrightarrow>
     latest_section sec' (snd (checkRetweets rem n w)) = latest_section sec' w"
  unfolding checkRetweets_def
  by (rule latest_section_marker_check)
     (auto simp: Let_def latest_file_saveLatest split: prod.split option.split list.split)

lemma latest_section_checkDirectMessages:
  "sec' \<noteq> ''DirectMessages'' \<Longrightarrow>
     latest_section sec' (snd (checkDirectMessages rem n f w)) = latest_section sec' w"
  unfolding checkDirectMessages_def
  by (rule latest_section_marker_check)
     (auto simp: Let_def latest_file_saveLatest split: prod.split option.split list.split)

lemma latest_section_checkReplies:
  "sec' \<noteq> ''Replies'' \<Longrightarrow>
     latest_section sec' (snd (checkReplies rem n w)) = latest_section sec' w"
  unfolding checkReplies_def
proof (rule latest_section_marker_check)
  fix since config w2
  obtain msgs failure where c: "cursor (home_timeline rem) since n = (msgs, failure)" by force
  obtain r w4 where s: "select_replies rem msgs (emit (Request HomeTimeline since n) w2) = (r, w4)"
    by force
  then have w4: "latest_file w4 = latest_file w2"
    using select_replies_fields(2) [of rem msgs "emit (Request HomeTimeline since n) w2"] by simp
  show "latest_file (snd (let w3 = emit (Request HomeTimeline since n) w2;
              (msgs, failure) = cursor (home_timeline rem) since n
          in and_then (select_replies rem msgs w3) (\<lambda>replies w4.
               case failure of Some e \<Rightarrow> (Inl e, w4)
               | None \<Rightarrow> (let newMessages = sort_desc replies in
                   (Inr newMessages,
                    notify HandleReply newMessages
                      (saveLatest ''Replies'' config newMessages w4)))))) = latest_file w2 \<or>
        (\<exists>m. latest_file (snd (let w3 = emit (Request HomeTimeline since n) w2;
              (msgs, failure) = cursor (home_timeline rem) since n
          in and_then (select_replies rem msgs w3) (\<lambda>replies w4.
               case failure of Some e \<Rightarrow> (Inl e, w4)
               | None \<Rightarrow> (let newMessages = sort_desc replies in
                   (Inr newMessages,
                    notify HandleReply newMessages
                      (saveLatest ''Replies'' config newMessages w4)))))) =
           Some (config(''Replies'' \<mapsto> m)))"
    using c s w4
    by (cases r) (auto simp: Let_def latest_file_saveLatest split: option.split list.split)
qed simp

text \<open>
  Claim C10: the markers of retweets, replies and direct messages are sections of the one file
  \<open>latest.ini\<close>; each check reads the whole file and writes it back with its own section
  replaced, so whatever a check does (return or raise), the sections of the other two
  features are after it what they were before.
\<close>

theorem marker_sections_independent:
  "latest_section ''Replies'' (snd (checkRetweets rem n w)) = latest_section ''Replies'' w \<and>
   latest_section ''DirectMessages'' (snd (checkRetweets rem n w))
     = latest_section ''DirectMessages'' w \<and>
   latest_section ''Retweets'' (snd (checkReplies rem n w)) = latest_section ''Retweets'' w \<and>
   latest_section ''DirectMessages'' (snd (checkReplies rem n w))
     = latest_section ''DirectMessages'' w \<and>
   latest_section ''Retweets'' (snd (checkDirectMessages rem n f w))
     = latest_section ''Retweets'' w \<and>
   latest_section ''Replies'' (snd (checkDirectMessages rem n f w))
     = latest_section ''Replies'' w"
  by (simp add: latest_section_checkRetweets latest_section_checkReplies
        latest_section_checkDirectMessages)

section \<open>The cadence counter under \<open>checkForUpdates\<close>\<close>

lemma interval_file_checkRetweets [simp]:
  "interval_file (snd (checkRetweets rem n w)) = interval_file w"
  unfolding checkRetweets_def
  apply (rule snd_and_then [where g = interval_file])
   apply simp
  apply (rule snd_and_then [where g = interval_file])
   apply simp
  apply (simp add: Let_def split: prod.split option.split)
  done

lemma interval_file_checkDirectMessages [simp]:
  "interval_file (snd (checkDirectMessages rem n f w)) = interval_file w"
  unfolding checkDirectMessages_def
  apply (rule snd_and_then [where g = interval_file])
   apply simp
  apply (rule snd_and_then [where g = interval_file])
   apply simp
  apply (simp add: Let_def split: prod.split option.split)
  done

lemma interval_file_checkReplies [simp]:
  "interval_file (snd (checkReplies rem n w)) = interval_file w"
  unfolding checkReplies_def
  apply (rule snd_and_then [where g = interval_file])
   apply simp
  apply (rule snd_and_then [where g = interval_file])
   apply simp
  apply (simp add: Let_def split: prod.split)
  apply (intro allI impI)
  apply (rule snd_and_then [where g = interval_file])
   apply simp
  apply (simp add: Let_def split: option.split)
  done

lemma interval_file_checkNewFollowers [simp]:
  "interval_file (snd (checkNewFollowers rem n w)) = interval_file w"
  unfolding checkNewFollowers_def
  apply (rule snd_and_then [where g = interval_file])
   apply simp
  apply (simp add: Let_def split: prod.split option.split)
  done

lemma interval_file_checkFavorites [simp]:
  "interval_file (snd (checkFavorites rem n w)) = interval_file w"
  unfolding checkFavorites_def
  apply (rule snd_and_then [where g = interval_file])
   apply simp
  apply (simp add: Let_def split: prod.split option.split sum.split)
  done

lemma interval_file_run_checks:
  "interval_file (snd (run_checks rem rt nf rp fv dm w)) = interval_file w"
  unfolding run_checks_def
  apply (rule snd_and_then [where g = interval_file], simp)+
  apply simp
  done

lemma shouldCheckUpdates_returns:
  "load_interval (interval_config w) = Inr loaded \<Longrightarrow>
     shouldCheckUpdates runInterval w =
       (Inr (\<not> 0 < loaded),
        emit (Write UpdateCheckInterval_ini)
          ((initState w)\<lparr>interval_file :=
             Some ((interval_config w)(''Update Check Interval'' \<mapsto>
                     [optionxform ''last'' \<mapsto>
                        str_int (if 0 < loaded then loaded - 1 else runInterval)]))\<rparr>))"
  by (simp add: shouldCheckUpdates_def Let_def)

lemma shouldCheckUpdates_raises:
  "load_interval (interval_config w) = Inl e \<Longrightarrow> shouldCheckUpdates runInterval w = (Inl e, w)"
  by (simp add: shouldCheckUpdates_def Let_def)

lemma counter_cong: "interval_file w' = interval_file w \<Longrightarrow> counter w' = counter w"
  by (simp add: counter_def)

text \<open>
  When the stored countdown cannot be read, \<open>checkForUpdates\<close> raises at once, whatever the
  interval: nothing is checked and nothing is written. When the authentication fails, no
  check is performed either.
\<close>

lemma checkForUpdates_gate_raises:
  "load_interval (interval_config w) = Inl e \<Longrightarrow>
     checkForUpdates rem runInterval rt nf rp fv dm w = (Inl e, w)"
  by (simp add: checkForUpdates_def shouldCheckUpdates_raises)

text \<open>
  A counter file with \<open>last = 5%\<close> is such a file: \<open>read_file\<close> accepts it, and the lookup of
  \<open>last\<close> raises \<open>InterpolationSyntaxError\<close>.
\<close>

lemma checkForUpdates_percent_raises:
  "checkForUpdates rem runInterval rt nf rp fv dm
     (example_world\<lparr>interval_file :=
        Some [''Update Check Interval'' \<mapsto> [''last'' \<mapsto> ''5%'']]\<rparr>) =
   (Inl InterpolationSyntaxError,
    example_world\<lparr>interval_file :=
      Some [''Update Check Interval'' \<mapsto> [''last'' \<mapsto> ''5%'']]\<rparr>)"
  by (rule checkForUpdates_gate_raises)
     (simp add: load_interval_def interval_config_def example_world_def get_option_def
        optionxform_names eval_nat_numeral)

lemma checkForUpdates_authentication_fails:
  assumes "runInterval \<le> 0" and "shouldCheckUpdates runInterval w = (Inr check, w1)"
    and "\<not> api w1" and "connect_failure rem = Some e"
  shows "checkForUpdates rem runInterval rt nf rp fv dm w = (Inl e, emit Authenticate w1)"
  using assms
  by (simp add: checkForUpdates_def run_checks_def ensure_connected_def connectFromConfig_def
        Let_def)




section \<open>Permission denial in \<open>checkDirectMessages\<close>\<close>

text \<open>
  Claim C5, as the code has it: the run has got as far as the fetch (the client is
  authenticated, the marker is loaded) and the fetch of the direct messages, having yielded
  the messages \<open>fetched\<close>, fails with a \<open>TweepError\<close> whose reason contains
  \<open>status code = 403\<close>. With \<open>failureOnMissingPermission\<close> false, \<open>checkDirectMessages\<close> raises
  nothing and goes on with what was fetched as after any fetch: it returns those messages in
  descending order, writes the marker if there are any and calls \<open>handleDM\<close> on each. When the
  fetch failed at its first request, that is the empty result, with nothing written and no
  hook called. With \<open>failureOnMissingPermission\<close> true, it raises \<open>MissingPermissionsError\<close>,
  whatever was fetched.
\<close>

theorem checkDirectMessages_permission_denied:
  assumes "ensure_connected rem w = (Inr (), w1)"
    and "loadLatest ''DirectMessages'' w1 = (Inr (since, config), w2)"
    and "cursor (direct_messages rem) since n = (fetched, Some e)"
    and "reason e = Some r"
    and "py_in ''status code = 403'' r"
  shows "checkDirectMessages rem n False w =
           (Inr (sort_desc fetched),
            notify HandleDM (sort_desc fetched)
              (saveLatest ''DirectMessages'' config (sort_desc fetched)
                 (emit (Request DirectMessages since n) w2))) \<and>
         (fetched = [] \<longrightarrow>
            checkDirectMessages rem n False w =
              (Inr [], emit (Request DirectMessages since n) w2)) \<and>
         checkDirectMessages rem n True w =
           (Inl MissingPermissionsError, emit (Request DirectMessages since n) w2)"
proof -
  have ignored: "checkDirectMessages rem n False w =
           (Inr (sort_desc fetched),
            notify HandleDM (sort_desc fetched)
              (saveLatest ''DirectMessages'' config (sort_desc fetched)
                 (emit (Request DirectMessages since n) w2)))"
    using assms by (simp add: checkDirectMessages_def dm_except_def Let_def)
  have raised: "checkDirectMessages rem n True w =
           (Inl MissingPermissionsError, emit (Request DirectMessages since n) w2)"
    using assms by (simp add: checkDirectMessages_def dm_except_def Let_def)
  show ?thesis
  proof (intro conjI impI)
    show "checkDirectMessages rem n False w =
           (Inr (sort_desc fetched),
            notify HandleDM (sort_desc fetched)
              (saveLatest ''DirectMessages'' config (sort_desc fetched)
                 (emit (Request DirectMessages since n) w2)))"
      by (rule ignored)
    show "checkDirectMessages rem n True w =
           (Inl MissingPermissionsError, emit (Request DirectMessages since n) w2)"
      by (rule raised)
    assume "fetched = []"
    then show "checkDirectMessages rem n False w =
              (Inr [], emit (Request DirectMessages since n) w2)"
      unfolding ignored by (simp add: sort_desc_def saveLatest_def notify_def)
  qed
qed

text \<open>
  The claim as written fails when the denial comes after a message has been yielded: the
  result is not empty, the marker is written and the hook is called.
\<close>

theorem checkDirectMessages_late_denial_not_empty:
  "cursor (direct_messages late_denied_remote) None 50 =
     ([item 5], Some (TweepError ''Twitter error response: status code = 403'')) \<and>
   fst (checkDirectMessages late_denied_remote 50 False example_world) = Inr [item 5] \<and>
   trace (snd (checkDirectMessages late_denied_remote 50 False example_world)) =
     [Request DirectMessages None 50, Write Latest_ini, HandleDM (item 5)] \<and>
   marker ''DirectMessages'' (snd (checkDirectMessages late_denied_remote 50 False example_world))
     = Some ''5''"
  by (simp add: checkDirectMessages_def dm_except_def reason_def late_denied_remote_def
        run_defs)

text \<open>
  The theorem on the remote that denies the permission at the first request, with the
  default limit of 50.
\<close>

theorem checkDirectMessages_permission_denied_witness:
  "ensure_connected denied_remote example_world = (Inr (), example_world) \<and>
   loadLatest ''DirectMessages'' example_world = (Inr (None, Map.empty), example_world) \<and>
   cursor (direct_messages denied_remote) None 50 =
     ([], Some (TweepError ''Twitter error response: status code = 403'')) \<and>
   reason (TweepError ''Twitter error response: status code = 403'') =
     Some ''Twitter error response: status code = 403'' \<and>
   py_in ''status code = 403'' ''Twitter error response: status code = 403'' \<and>
   checkDirectMessages denied_remote 50 False example_world =
     (Inr [], emit (Request DirectMessages None 50) example_world) \<and>
   checkDirectMessages denied_remote 50 True example_world =
     (Inl MissingPermissionsError, emit (Request DirectMessages None 50) example_world)"
proof -
  have a: "ensure_connected denied_remote example_world = (Inr (), example_world)"
    by (simp add: ensure_connected_def example_world_def)
  have b: "loadLatest ''DirectMessages'' example_world = (Inr (None, Map.empty), example_world)"
    by (simp add: loadLatest_def initState_def example_world_def)
  have c: "cursor (direct_messages denied_remote) None 50 =
     ([], Some (TweepError ''Twitter error response: status code = 403''))"
    by (simp add: cursor_def listed_def items_def denied_remote_def)
  have d: "reason (TweepError ''Twitter error response: status code = 403'') =
     Some ''Twitter error response: status code = 403''"
    by (simp add: reason_def)
  have e: "py_in ''status code = 403'' ''Twitter error response: status code = 403''"
    by simp
  from a b c d e checkDirectMessages_permission_denied [OF a b c d e] show ?thesis
    by blast
qed

section \<open>Idempotence of \<open>checkNewFollowers\<close>\<close>

lemma strip_ends:
  "strip s = [] \<or> (\<not> is_space (hd (strip s)) \<and> \<not> is_space (last (strip s)))"
proof (cases "strip s = []")
  case False
  define t where "t = dropWhile is_space s"
  define v where "v = dropWhile is_space (rev t)"
  have s: "strip s = rev v" by (simp add: strip_def t_def v_def)
  with False have v: "v \<noteq> []" by simp
  then have hv: "\<not> is_space (hd v)"
    unfolding v_def by (rule hd_dropWhile)
  from v have t: "t \<noteq> []" by (auto simp: v_def)
  then have ht: "\<not> is_space (hd t)"
    unfolding t_def by (rule hd_dropWhile)
  have "rev t = takeWhile is_space (rev t) @ v"
    by (simp add: v_def)
  then have "last (rev t) = last v"
    using v by (metis last_appendR)
  then have "last v = hd t"
    using t by (simp add: last_rev)
  with hv ht v show ?thesis
    by (simp add: s hd_rev last_rev)
qed simp

lemma strip_idem: "strip (strip s) = strip s"
proof (cases "strip s = []")
  case True
  have "strip [] = []" by (simp add: strip_def)
  with True show ?thesis by simp
next
  case False
  with strip_ends [of s] show ?thesis by (intro strip_no_space_ends) auto
qed

lemma scan_followers_grows:
  "scan_followers cur known new = (known', new') \<Longrightarrow>
     \<exists>added. new' = new @ added \<and> known' = known @ map (\<lambda>f. str_int (user_id f)) added"
proof (induction cur arbitrary: known new)
  case Nil
  then show ?case by simp
next
  case (Cons f cur)
  show ?case
  proof (cases "str_int (user_id f) \<in> set known")
    case True
    with Cons.prems have "scan_followers cur known new = (known', new')" by simp
    then show ?thesis by (rule Cons.IH)
  next
    case False
    with Cons.prems have
      "scan_followers cur (known @ [str_int (user_id f)]) (new @ [f]) = (known', new')" by simp
    from Cons.IH [OF this] obtain added where
      "new' = (new @ [f]) @ added" "known' = (known @ [str_int (user_id f)]) @ map (\<lambda>f. str_int (user_id f)) added"
      by blast
    then have "new' = new @ (f # added) \<and> known' = known @ map (\<lambda>f. str_int (user_id f)) (f # added)"
      by simp
    then show ?thesis by blast
  qed
qed

lemma scan_followers_covers:
  "scan_followers cur known new = (known', new') \<Longrightarrow>
     \<forall>f \<in> set cur. str_int (user_id f) \<in> set known'"
proof (induction cur arbitrary: known new)
  case Nil
  then show ?case by simp
next
  case (Cons f cur)
  show ?case
  proof (cases "str_int (user_id f) \<in> set known")
    case True
    with Cons.prems have run: "scan_followers cur known new = (known', new')" by simp
    from scan_followers_grows [OF run] True have "str_int (user_id f) \<in> set known'" by auto
    with Cons.IH [OF run] show ?thesis by simp
  next
    case False
    with Cons.prems have run:
      "scan_followers cur (known @ [str_int (user_id f)]) (new @ [f]) = (known', new')" by simp
    from scan_followers_grows [OF run] have "str_int (user_id f) \<in> set known'" by auto
    with Cons.IH [OF run] show ?thesis by simp
  qed
qed

lemma scan_followers_all_known:
  "\<forall>f \<in> set cur. str_int (user_id f) \<in> set known \<Longrightarrow>
     scan_followers cur known new = (known, new)"
  by (induction cur) simp_all

lemma known_followers_cong:
  "followers_file w' = followers_file w \<Longrightarrow> known_followers w' = known_followers w"
  by (simp add: known_followers_def)

lemma initState_idem: "state_dir w \<Longrightarrow> initState w = w"
  by (simp add: initState_def)

lemma notify_Nil [simp]: "notify h [] w = w"
  by (simp add: notify_def)

text \<open>A run of \<open>checkNewFollowers\<close> that returns normally, step by step.\<close>

lemma checkNewFollowers_returns:
  assumes "checkNewFollowers rem n w = (Inr new1, w1)"
  obtains w0 cur known' where
    "ensure_connected rem w = (Inr (), w0)"
    "items (held (followers rem)) (breaks (followers rem)) n = (cur, None)"
    "scan_followers cur (known_followers w) [] = (known', new1)"
    "w1 = notify HandleNewFollower new1
            (if new1 = [] then emit (Request Followers None n) (initState w0)
             else emit (Write Followers_txt)
                    ((emit (Request Followers None n) (initState w0))
                       \<lparr>followers_file := Some known'\<rparr>))"
proof -
  obtain a w0 where c: "ensure_connected rem w = (a, w0)" by force
  then have f0: "followers_file w0 = followers_file w"
    using ensure_connected_fields(3) [of rem w] by simp
  obtain cur failure where i:
    "items (held (followers rem)) (breaks (followers rem)) n = (cur, failure)" by force
  obtain known' new' where s:
    "scan_followers cur (known_followers w) [] = (known', new')" by force
  have k: "known_followers (initState w0) = known_followers w"
    using f0 by (simp add: known_followers_def)
  from assms c have a: "a = Inr ()"
    by (cases a) (simp_all add: checkNewFollowers_def)
  from assms c a i s k have "failure = None"
    by (cases failure) (simp_all add: checkNewFollowers_def Let_def)
  with assms c a i s k have "new' = new1" and
    "w1 = notify HandleNewFollower new1
            (if new1 = [] then emit (Request Followers None n) (initState w0)
             else emit (Write Followers_txt)
                    ((emit (Request Followers None n) (initState w0))
                       \<lparr>followers_file := Some known'\<rparr>))"
    by (auto simp: checkNewFollowers_def Let_def)
  with c a i s \<open>failure = None\<close> show ?thesis
    by (intro that [of w0 cur known']) simp_all
qed

lemma api_ensure_connected:
  "ensure_connected rem w = (Inr (), w0) \<Longrightarrow> api w0"
  by (cases rem w rule: ensure_connected_cases) auto

text \<open>
  Claim C8: after a run of \<open>checkNewFollowers\<close> that returned normally, a second run against
  the same remote data returns no new follower, calls no hook and writes nothing (its only
  event is the request), so the persisted follower list is the one the first run left; and
  every identifier known before the first run is still known after it.
\<close>

theorem checkNewFollowers_idempotent:
  assumes "checkNewFollowers rem n w = (Inr new1, w1)"
  shows "checkNewFollowers rem n w1 = (Inr [], emit (Request Followers None n) w1) \<and>
         followers_file (snd (checkNewFollowers rem n w1)) = followers_file w1 \<and>
         set (known_followers w) \<subseteq> set (known_followers w1)"
proof -
  from assms obtain w0 cur known' where
    c: "ensure_connected rem w = (Inr (), w0)" and
    i: "items (held (followers rem)) (breaks (followers rem)) n = (cur, None)" and
    s: "scan_followers cur (known_followers w) [] = (known', new1)" and
    w1: "w1 = notify HandleNewFollower new1
            (if new1 = [] then emit (Request Followers None n) (initState w0)
             else emit (Write Followers_txt)
                    ((emit (Request Followers None n) (initState w0))
                       \<lparr>followers_file := Some known'\<rparr>))"
    by (rule checkNewFollowers_returns)
  have f0: "followers_file w0 = followers_file w"
    using c ensure_connected_fields(3) [of rem w] by simp
  have api1: "api w1"
    using api_ensure_connected [OF c] by (simp add: w1)
  have dir1: "state_dir w1"
    by (simp add: w1 notify_def emit_def initState_def)
  from scan_followers_grows [OF s] obtain added where
    added: "new1 = added" "known' = known_followers w @ map (\<lambda>f. str_int (user_id f)) added"
    by auto
  have known1: "known_followers w1 =
      (if new1 = [] then known_followers w else map strip known')"
    using f0 by (simp add: w1 known_followers_def)
  have sub: "set (known_followers w) \<subseteq> set (known_followers w1)"
  proof (cases "new1 = []")
    case True
    then show ?thesis by (simp add: known1)
  next
    case False
    have "map strip (known_followers w) = known_followers w"
      by (simp add: known_followers_def strip_idem split: option.split)
    then have "known_followers w1 =
        known_followers w @ map strip (map (\<lambda>f. str_int (user_id f)) added)"
      using False by (simp add: known1 added(2))
    then show ?thesis by simp
  qed
  have covered: "\<forall>f \<in> set cur. str_int (user_id f) \<in> set (known_followers w1)"
  proof
    fix f assume f: "f \<in> set cur"
    with scan_followers_covers [OF s] have in': "str_int (user_id f) \<in> set known'" by blast
    show "str_int (user_id f) \<in> set (known_followers w1)"
    proof (cases "new1 = []")
      case True
      with added have "known' = known_followers w" by simp
      with in' True show ?thesis by (simp add: known1)
    next
      case False
      from in' have "strip (str_int (user_id f)) \<in> set (map strip known')"
        by (simp only: set_map) (rule imageI)
      with False show ?thesis by (simp add: known1 strip_str_int)
    qed
  qed
  have again: "scan_followers cur (known_followers w1) [] = (known_followers w1, [])"
    using covered by (rule scan_followers_all_known)
  have second: "checkNewFollowers rem n w1 = (Inr [], emit (Request Followers None n) w1)"
    using api1 dir1 i again
    by (simp add: checkNewFollowers_def ensure_connected_def initState_idem Let_def)
  with sub show ?thesis by simp
qed

text \<open>The theorem on that remote: the first run finds follower 21, the second finds nobody.\<close>

theorem checkNewFollowers_idempotent_witness:
  "checkNewFollowers followed_remote 50 followed_world =
     (Inr [\<lparr>user_id = 21, screen_name = ''ann''\<rparr>],
      snd (checkNewFollowers followed_remote 50 followed_world)) \<and>
   checkNewFollowers followed_remote 50 (snd (checkNewFollowers followed_remote 50 followed_world))
     = (Inr [], emit (Request Followers None 50)
                  (snd (checkNewFollowers followed_remote 50 followed_world))) \<and>
   followers_file (snd (checkNewFollowers followed_remote 50
                          (snd (checkNewFollowers followed_remote 50 followed_world))))
     = followers_file (snd (checkNewFollowers followed_remote 50 followed_world)) \<and>
   set (known_followers followed_world)
     \<subseteq> set (known_followers (snd (checkNewFollowers followed_remote 50 followed_world)))"
proof -
  have s22: "strip ''22'' = ''22''"
    using strip_str_int [of 22] by (simp add: str_int_def str_nat.simps digit_char_def)
  have f: "fst (checkNewFollowers followed_remote 50 followed_world) =
             Inr [\<lparr>user_id = 21, screen_name = ''ann''\<rparr>]"
    by (simp add: checkNewFollowers_def ensure_connected_def followed_world_def
          followed_remote_def example_world_def example_remote_def items_def Let_def
          known_followers_def s22 initState_def emit_def str_int_def str_nat.simps
          digit_char_def)
  then have h: "checkNewFollowers followed_remote 50 followed_world =
     (Inr [\<lparr>user_id = 21, screen_name = ''ann''\<rparr>],
      snd (checkNewFollowers followed_remote 50 followed_world))"
    by (simp add: prod_eq_iff)
  from h checkNewFollowers_idempotent [OF h] show ?thesis by blast
qed

section \<open>Change detection in \<open>checkFavorites\<close>\<close>

lemma known_favorites_other:
  "item_id m' \<noteq> item_id m \<Longrightarrow>
     known_favorites (config(str_int (item_id m) \<mapsto> sec)) m' = known_favorites config m'"
  by (simp add: known_favorites_def str_int_inject)

lemma scan_favorites_untouched:
  "scan_favorites msgs config new = Inr (config', new') \<Longrightarrow>
     key \<notin> (\<lambda>m. str_int (item_id m)) ` set msgs \<Longrightarrow> config' key = config key"
proof (induction msgs arbitrary: config new)
  case Nil
  then show ?case by simp
next
  case (Cons m msgs)
  from Cons.prems(2) have key: "key \<noteq> str_int (item_id m)"
    and rest: "key \<notin> (\<lambda>m. str_int (item_id m)) ` set msgs" by auto
  from Cons.prems(1) consider
    (skip) "scan_favorites msgs config new = Inr (config', new')"
  | (upd) k where
      "scan_favorites msgs
         (config(str_int (item_id m) \<mapsto> [optionxform ''favorites'' \<mapsto> str_int (favorite_count m)]))
         (new @ [(m, k)]) = Inr (config', new')"
    by (auto split: if_splits sum.splits)
  then show ?case
  proof cases
    case skip
    from Cons.IH [OF skip rest] show ?thesis .
  next
    case upd
    from Cons.IH [OF upd rest] key show ?thesis by simp
  qed
qed

lemma scan_favorites_members:
  "scan_favorites msgs config new = Inr (config', new') \<Longrightarrow> distinct (map item_id msgs) \<Longrightarrow>
     (m, k) \<in> set new' \<longleftrightarrow>
       (m, k) \<in> set new \<or>
       (m \<in> set msgs \<and> 0 < favorite_count m \<and> known_favorites config m = Inr k \<and>
        k \<noteq> PyStr (str_int (favorite_count m)))"
proof (induction msgs arbitrary: config new)
  case Nil
  then show ?case by auto
next
  case (Cons x msgs)
  from Cons.prems(2) have d: "distinct (map item_id msgs)" by simp
  from Cons.prems(2) have fresh: "\<And>m'. m' \<in> set msgs \<Longrightarrow> item_id m' \<noteq> item_id x"
    by (metis distinct.simps(2) image_eqI list.simps(9) set_map)
  show ?case
  proof (cases "0 < favorite_count x")
    case False
    with Cons.prems(1) have run: "scan_favorites msgs config new = Inr (config', new')" by simp
    from Cons.IH [OF run d] False show ?thesis by auto
  next
    case True
    with Cons.prems(1) obtain kx where kx: "known_favorites config x = Inr kx"
      by (auto split: sum.splits)
    show ?thesis
    proof (cases "kx = PyStr (str_int (favorite_count x))")
      case same: True
      with Cons.prems(1) True kx have run: "scan_favorites msgs config new = Inr (config', new')"
        by simp
      from Cons.IH [OF run d] same kx show ?thesis by auto
    next
      case differs: False
      let ?config = "config(str_int (item_id x) \<mapsto> [optionxform ''favorites'' \<mapsto> str_int (favorite_count x)])"
      from Cons.prems(1) True kx differs
      have run: "scan_favorites msgs ?config (new @ [(x, kx)]) = Inr (config', new')"
        by auto
      have other: "\<And>m'. m' \<in> set msgs \<Longrightarrow> known_favorites ?config m' = known_favorites config m'"
        using fresh by (simp add: known_favorites_other)
      have "(m, k) \<in> set new' \<longleftrightarrow>
              (m, k) \<in> set (new @ [(x, kx)]) \<or>
              (m \<in> set msgs \<and> 0 < favorite_count m \<and> known_favorites ?config m = Inr k \<and>
               k \<noteq> PyStr (str_int (favorite_count m)))"
        by (rule Cons.IH [OF run d])
      also have "\<dots> \<longleftrightarrow>
              (m, k) \<in> set new \<or> (m, k) = (x, kx) \<or>
              (m \<in> set msgs \<and> 0 < favorite_count m \<and> known_favorites config m = Inr k \<and>
               k \<noteq> PyStr (str_int (favorite_count m)))"
        using other by auto
      also have "\<dots> \<longleftrightarrow>
              (m, k) \<in> set new \<or>
              (m \<in> set (x # msgs) \<and> 0 < favorite_count m \<and> known_favorites config m = Inr k \<and>
               k \<noteq> PyStr (str_int (favorite_count m)))"
        using True kx differs by auto
      finally show ?thesis .
    qed
  qed
qed

lemma scan_favorites_updates:
  "scan_favorites msgs config new = Inr (config', new') \<Longrightarrow> distinct (map item_id msgs) \<Longrightarrow>
     m \<in> set msgs \<Longrightarrow> 0 < favorite_count m \<Longrightarrow> known_favorites config m = Inr k \<Longrightarrow>
     k \<noteq> PyStr (str_int (favorite_count m)) \<Longrightarrow>
     config' (str_int (item_id m)) = Some [optionxform ''favorites'' \<mapsto> str_int (favorite_count m)]"
proof (induction msgs arbitrary: config new)
  case Nil
  then show ?case by simp
next
  case (Cons x msgs)
  from Cons.prems(2) have d: "distinct (map item_id msgs)" by simp
  from Cons.prems(2) have fresh: "\<And>m'. m' \<in> set msgs \<Longrightarrow> item_id m' \<noteq> item_id x"
    by (metis distinct.simps(2) image_eqI list.simps(9) set_map)
  show ?case
  proof (cases "m = x")
    case True
    let ?config = "config(str_int (item_id x) \<mapsto> [optionxform ''favorites'' \<mapsto> str_int (favorite_count x)])"
    from Cons.prems True
    have run: "scan_favorites msgs ?config (new @ [(x, k)]) = Inr (config', new')"
      by auto
    have "str_int (item_id x) \<notin> (\<lambda>m. str_int (item_id m)) ` set msgs"
      using fresh by (fastforce simp: str_int_inject)
    from scan_favorites_untouched [OF run this]
    have "config' (str_int (item_id x)) = ?config (str_int (item_id x))" .
    also have "\<dots> = Some [optionxform ''favorites'' \<mapsto> str_int (favorite_count x)]"
      by (rule fun_upd_same)
    finally show ?thesis unfolding True .
  next
    case False
    with Cons.prems(3) have m: "m \<in> set msgs" by simp
    from Cons.prems(1) consider
      (skip) "scan_favorites msgs config new = Inr (config', new')"
    | (upd) kx where
        "scan_favorites msgs
           (config(str_int (item_id x) \<mapsto> [optionxform ''favorites'' \<mapsto> str_int (favorite_count x)]))
           (new @ [(x, kx)]) = Inr (config', new')"
      by (auto split: if_splits sum.splits)
    then show ?thesis
    proof cases
      case skip
      from Cons.IH [OF skip d m Cons.prems(4,5,6)] show ?thesis .
    next
      case upd
      have "known_favorites
              (config(str_int (item_id x) \<mapsto> [optionxform ''favorites'' \<mapsto> str_int (favorite_count x)])) m
            = Inr k"
        using fresh [OF m] Cons.prems(5) by (simp add: known_favorites_other)
      from Cons.IH [OF upd d m Cons.prems(4) this Cons.prems(6)] show ?thesis .
    qed
  qed
qed

lemma scan_favorites_keeps:
  "scan_favorites msgs config new = Inr (config', new') \<Longrightarrow> distinct (map item_id msgs) \<Longrightarrow>
     m \<in> set msgs \<Longrightarrow> \<forall>k. (m, k) \<notin> set new' \<Longrightarrow> \<forall>k. (m, k) \<notin> set new \<Longrightarrow>
     config' (str_int (item_id m)) = config (str_int (item_id m))"
proof (induction msgs arbitrary: config new)
  case Nil
  then show ?case by simp
next
  case (Cons x msgs)
  from Cons.prems(2) have d: "distinct (map item_id msgs)" by simp
  from Cons.prems(2) have fresh: "\<And>m'. m' \<in> set msgs \<Longrightarrow> item_id m' \<noteq> item_id x"
    by (metis distinct.simps(2) image_eqI list.simps(9) set_map)
  from Cons.prems(1) consider
    (skip) "scan_favorites msgs config new = Inr (config', new')"
  | (upd) kx where
      "scan_favorites msgs
         (config(str_int (item_id x) \<mapsto>
            [optionxform ''favorites'' \<mapsto> str_int (favorite_count x)]))
         (new @ [(x, kx)]) = Inr (config', new')"
    by (auto split: if_splits sum.splits)
  then show ?case
  proof cases
    case skip
    show ?thesis
    proof (cases "m = x")
      case True
      have "str_int (item_id x) \<notin> (\<lambda>m. str_int (item_id m)) ` set msgs"
        using fresh by (fastforce simp: str_int_inject)
      from scan_favorites_untouched [OF skip this] True show ?thesis by simp
    next
      case False
      with Cons.prems(3) have "m \<in> set msgs" by simp
      from Cons.IH [OF skip d this Cons.prems(4,5)] show ?thesis .
    qed
  next
    case upd
    from scan_favorites_members [OF upd d, of x kx] have "(x, kx) \<in> set new'" by simp
    with Cons.prems(4) have "m \<noteq> x" by auto
    with Cons.prems(3) have m: "m \<in> set msgs" by simp
    have "\<forall>k. (m, k) \<notin> set (new @ [(x, kx)])"
      using Cons.prems(5) \<open>m \<noteq> x\<close> by simp
    from Cons.IH [OF upd d m Cons.prems(4) this] fresh [OF m] show ?thesis
      by (simp add: str_int_inject)
  qed
qed

text \<open>A run of \<open>checkFavorites\<close> that returns normally, step by step.\<close>

lemma checkFavorites_returns:
  assumes "checkFavorites rem n w = (Inr newFavorites, w')"
  obtains w0 msgs config' where
    "ensure_connected rem w = (Inr (), w0)"
    "items (held (user_timeline rem)) (breaks (user_timeline rem)) n = (msgs, None)"
    "scan_favorites msgs (ledger w) [] = Inr (config', newFavorites)"
    "w' = notify (\<lambda>p. HandleFavorite (fst p) (snd p)) newFavorites
            (if newFavorites = [] then emit (Request UserTimeline None n) (initState w0)
             else emit (Write Favorites_ini)
                    ((emit (Request UserTimeline None n) (initState w0))
                       \<lparr>favorites_file := Some config'\<rparr>))"
proof -
  obtain a w0 where c: "ensure_connected rem w = (a, w0)" by force
  then have f0: "favorites_file w0 = favorites_file w"
    using ensure_connected_fields(4) [of rem w] by simp
  obtain msgs failure where i:
    "items (held (user_timeline rem)) (breaks (user_timeline rem)) n = (msgs, failure)" by force
  have l: "ledger (initState w0) = ledger w"
    using f0 by (simp add: ledger_def)
  from assms c have a: "a = Inr ()"
    by (cases a) (simp_all add: checkFavorites_def)
  obtain s where s: "scan_favorites msgs (ledger w) [] = s" by simp
  from assms c a i l s obtain config' new' where s': "s = Inr (config', new')"
    by (cases s) (auto simp: checkFavorites_def Let_def)
  from assms c a i l s s' have "failure = None"
    by (cases failure) (simp_all add: checkFavorites_def Let_def)
  with assms c a i l s s' have "new' = newFavorites" and
    "w' = notify (\<lambda>p. HandleFavorite (fst p) (snd p)) newFavorites
            (if newFavorites = [] then emit (Request UserTimeline None n) (initState w0)
             else emit (Write Favorites_ini)
                    ((emit (Request UserTimeline None n) (initState w0))
                       \<lparr>favorites_file := Some config'\<rparr>))"
    by (auto simp: checkFavorites_def Let_def)
  with c a i s s' \<open>failure = None\<close> show ?thesis
    by (intro that [of w0 msgs config']) simp_all
qed

text \<open>
  Claim C7, as the code has it, for a run of \<open>checkFavorites\<close> that returns normally over posts
  with distinct identifiers. A post reported with no favorites is skipped by the guard
  \<open>msg.favorite_count > 0\<close>: it is not in the result and its ledger entry stays as it was,
  whatever the ledger records. A post whose recorded count is the reported one is not in the
  result and its entry stays as it was. A post whose reported count is positive and differs
  from the recorded count \<open>r\<close> is in the result with \<open>r\<close>, and the ledger then records the
  reported count; a post with a positive count and no ledger entry is in the result with
  \<open>0\<close>, and the ledger then records its count. The hooks called are exactly those of the
  result, in its order, after the write of the ledger.
\<close>

theorem checkFavorites_change_detection:
  assumes "checkFavorites rem n w = (Inr newFavorites, w')"
    and "items (held (user_timeline rem)) (breaks (user_timeline rem)) n = (msgs, failure)"
    and "distinct (map item_id msgs)"
    and "msg \<in> set msgs"
  shows "(favorite_count msg \<le> 0 \<longrightarrow>
            msg \<notin> fst ` set newFavorites \<and>
            ledger w' (str_int (item_id msg)) = ledger w (str_int (item_id msg))) \<and>
         (known_favorites (ledger w) msg = Inr (PyStr (str_int (favorite_count msg))) \<longrightarrow>
            msg \<notin> fst ` set newFavorites \<and>
            ledger w' (str_int (item_id msg)) = ledger w (str_int (item_id msg))) \<and>
         (0 < favorite_count msg \<and> known_favorites (ledger w) msg = Inr (PyStr (str_int r)) \<and>
          r \<noteq> favorite_count msg \<longrightarrow>
            (msg, PyStr (str_int r)) \<in> set newFavorites \<and>
            known_favorites (ledger w') msg = Inr (PyStr (str_int (favorite_count msg)))) \<and>
         (0 < favorite_count msg \<and> known_favorites (ledger w) msg = Inr (PyInt 0) \<longrightarrow>
            (msg, PyInt 0) \<in> set newFavorites \<and>
            known_favorites (ledger w') msg = Inr (PyStr (str_int (favorite_count msg)))) \<and>
         trace w' =
           trace (snd (ensure_connected rem w)) @ [Request UserTimeline None n] @
           (if newFavorites = [] then [] else [Write Favorites_ini]) @
           map (\<lambda>p. HandleFavorite (fst p) (snd p)) newFavorites"
proof -
  from assms(1) obtain w0 msgs' config' where
    c: "ensure_connected rem w = (Inr (), w0)" and
    i: "items (held (user_timeline rem)) (breaks (user_timeline rem)) n = (msgs', None)" and
    s: "scan_favorites msgs' (ledger w) [] = Inr (config', newFavorites)" and
    w': "w' = notify (\<lambda>p. HandleFavorite (fst p) (snd p)) newFavorites
            (if newFavorites = [] then emit (Request UserTimeline None n) (initState w0)
             else emit (Write Favorites_ini)
                    ((emit (Request UserTimeline None n) (initState w0))
                       \<lparr>favorites_file := Some config'\<rparr>))"
    by (rule checkFavorites_returns)
  from i assms(2) have msgs: "msgs' = msgs" by simp
  note s = s [unfolded msgs]
  have members: "\<And>m k. (m, k) \<in> set newFavorites \<longleftrightarrow>
       m \<in> set msgs \<and> 0 < favorite_count m \<and> known_favorites (ledger w) m = Inr k \<and>
       k \<noteq> PyStr (str_int (favorite_count m))"
    using scan_favorites_members [OF s assms(3)] by simp
  have after: "ledger w' = (if newFavorites = [] then ledger w else config')"
    using c ensure_connected_fields(4) [of rem w] by (simp add: w' ledger_def)
  have updated: "known_favorites (ledger w') msg = Inr (PyStr (str_int (favorite_count msg)))"
    if "0 < favorite_count msg" "known_favorites (ledger w) msg = Inr k"
      "k \<noteq> PyStr (str_int (favorite_count msg))" for k
  proof -
    from that assms(4) have "(msg, k) \<in> set newFavorites" by (simp add: members)
    then have "newFavorites \<noteq> []" by auto
    moreover have "config' (str_int (item_id msg)) =
        Some [optionxform ''favorites'' \<mapsto> str_int (favorite_count msg)]"
      using s assms(3,4) that by (rule scan_favorites_updates)
    ultimately show ?thesis by (simp add: after known_favorites_def)
  qed
  have kept: "ledger w' (str_int (item_id msg)) = ledger w (str_int (item_id msg))"
    if "msg \<notin> fst ` set newFavorites"
  proof (cases "newFavorites = []")
    case True
    then show ?thesis by (simp add: after)
  next
    case False
    from that have "\<forall>k. (msg, k) \<notin> set newFavorites" by force
    from scan_favorites_keeps [OF s assms(3,4) this] False show ?thesis
      by (simp add: after)
  qed
  have skipped: "msg \<notin> fst ` set newFavorites \<and>
      ledger w' (str_int (item_id msg)) = ledger w (str_int (item_id msg))"
    if "favorite_count msg \<le> 0"
  proof -
    have "msg \<notin> fst ` set newFavorites"
    proof
      assume "msg \<in> fst ` set newFavorites"
      then obtain k where "(msg, k) \<in> set newFavorites" by auto
      with that show False by (auto simp: members)
    qed
    with kept show ?thesis by simp
  qed
  have same: "msg \<notin> fst ` set newFavorites \<and>
      ledger w' (str_int (item_id msg)) = ledger w (str_int (item_id msg))"
    if "known_favorites (ledger w) msg = Inr (PyStr (str_int (favorite_count msg)))"
  proof -
    have "msg \<notin> fst ` set newFavorites"
    proof
      assume "msg \<in> fst ` set newFavorites"
      then obtain k where "(msg, k) \<in> set newFavorites" by auto
      with that show False by (auto simp: members)
    qed
    with kept show ?thesis by simp
  qed
  have differs: "(msg, PyStr (str_int r)) \<in> set newFavorites \<and>
      known_favorites (ledger w') msg = Inr (PyStr (str_int (favorite_count msg)))"
    if "0 < favorite_count msg" "known_favorites (ledger w) msg = Inr (PyStr (str_int r))"
      "r \<noteq> favorite_count msg"
  proof -
    from that(3) have ne: "PyStr (str_int r) \<noteq> PyStr (str_int (favorite_count msg))"
      by (simp add: str_int_inject)
    with that assms(4) have "(msg, PyStr (str_int r)) \<in> set newFavorites"
      by (simp add: members)
    with updated [OF that(1,2) ne] show ?thesis by simp
  qed
  have first: "(msg, PyInt 0) \<in> set newFavorites \<and>
      known_favorites (ledger w') msg = Inr (PyStr (str_int (favorite_count msg)))"
    if "0 < favorite_count msg" "known_favorites (ledger w) msg = Inr (PyInt 0)"
  proof -
    have ne: "PyInt 0 \<noteq> PyStr (str_int (favorite_count msg))" by simp
    with that assms(4) have "(msg, PyInt 0) \<in> set newFavorites"
      by (simp add: members)
    with updated [OF that ne] show ?thesis by simp
  qed
  have events: "trace w' =
           trace (snd (ensure_connected rem w)) @ [Request UserTimeline None n] @
           (if newFavorites = [] then [] else [Write Favorites_ini]) @
           map (\<lambda>p. HandleFavorite (fst p) (snd p)) newFavorites"
    using c by (simp add: w')
  from skipped same differs first events show ?thesis by blast
qed

lemmas favorite_defs =
  checkFavorites_def ensure_connected_def favorite_world_def favorite_remote_def
  example_world_def example_remote_def items_def Let_def ledger_def known_favorites_def
  initState_def emit_def notify_def post_def str_int_def str_nat.simps digit_char_def
  get_option_unfold optionxform_names

lemma checkFavorites_example:
  "fst (checkFavorites favorite_remote 50 favorite_world) =
     Inr [(post 11 5, PyStr ''3''), (post 13 2, PyInt 0)]"
  by (simp add: favorite_defs)

lemma ledger_after_example:
  "ledger (snd (checkFavorites favorite_remote 50 favorite_world)) =
     [''11'' \<mapsto> [''favorites'' \<mapsto> ''5''], ''12'' \<mapsto> [''favorites'' \<mapsto> ''3''],
      ''14'' \<mapsto> [''favorites'' \<mapsto> ''3''], ''13'' \<mapsto> [''favorites'' \<mapsto> ''2'']]"
  by (simp add: favorite_defs fun_upd_twist)

text \<open>
  The claim as written fails for a post that lost its favorites: post 14 is recorded with 3
  and reported with 0, which differ, yet it is not in the result, no hook is called for it
  and the ledger keeps 3.
\<close>

theorem checkFavorites_unfavorited_post_not_novel:
  "known_favorites (ledger favorite_world) (post 14 0) = Inr (PyStr ''3'') \<and>
   favorite_count (post 14 0) = 0 \<and>
   fst (checkFavorites favorite_remote 50 favorite_world) =
     Inr [(post 11 5, PyStr ''3''), (post 13 2, PyInt 0)] \<and>
   known_favorites (ledger (snd (checkFavorites favorite_remote 50 favorite_world))) (post 14 0)
     = Inr (PyStr ''3'')"
proof -
  have "known_favorites (ledger favorite_world) (post 14 0) = Inr (PyStr ''3'')"
    by (simp add: favorite_defs)
  moreover have "favorite_count (post 14 0) = 0"
    by (simp add: post_def)
  moreover have
    "known_favorites (ledger (snd (checkFavorites favorite_remote 50 favorite_world))) (post 14 0)
       = Inr (PyStr ''3'')"
    unfolding ledger_after_example
    by (simp add: known_favorites_def post_def str_int_def str_nat.simps digit_char_def
          get_option_unfold optionxform_names)
  ultimately show ?thesis using checkFavorites_example by simp
qed

text \<open>
  The theorem on the example, at each of its posts: post 11 (recorded 3, reported 5) is
  novel, post 12 (recorded 3, reported 3) is not, post 13 (no entry, reported 2) is novel and
  post 14 (recorded 3, reported 0) is not.
\<close>

theorem checkFavorites_change_detection_witness:
  "checkFavorites favorite_remote 50 favorite_world =
     (Inr [(post 11 5, PyStr ''3''), (post 13 2, PyInt 0)],
      snd (checkFavorites favorite_remote 50 favorite_world)) \<and>
   items (held (user_timeline favorite_remote)) (breaks (user_timeline favorite_remote)) 50 =
     ([post 11 5, post 12 3, post 13 2, post 14 0], None) \<and>
   distinct (map item_id [post 11 5, post 12 3, post 13 2, post 14 0]) \<and>
   post 11 5 \<in> set [post 11 5, post 12 3, post 13 2, post 14 0] \<and>
   0 < favorite_count (post 11 5) \<and>
   known_favorites (ledger favorite_world) (post 11 5) = Inr (PyStr (str_int 3)) \<and>
   3 \<noteq> favorite_count (post 11 5) \<and>
   (post 11 5, PyStr (str_int 3)) \<in> set [(post 11 5, PyStr ''3''), (post 13 2, PyInt 0)] \<and>
   known_favorites (ledger (snd (checkFavorites favorite_remote 50 favorite_world))) (post 11 5)
     = Inr (PyStr (str_int (favorite_count (post 11 5)))) \<and>
   known_favorites (ledger favorite_world) (post 12 3)
     = Inr (PyStr (str_int (favorite_count (post 12 3)))) \<and>
   post 12 3 \<notin> fst ` set [(post 11 5, PyStr ''3''), (post 13 2, PyInt 0)] \<and>
   0 < favorite_count (post 13 2) \<and>
   known_favorites (ledger favorite_world) (post 13 2) = Inr (PyInt 0) \<and>
   (post 13 2, PyInt 0) \<in> set [(post 11 5, PyStr ''3''), (post 13 2, PyInt 0)] \<and>
   known_favorites (ledger (snd (checkFavorites favorite_remote 50 favorite_world))) (post 13 2)
     = Inr (PyStr (str_int (favorite_count (post 13 2)))) \<and>
   favorite_count (post 14 0) \<le> 0 \<and>
   post 14 0 \<notin> fst ` set [(post 11 5, PyStr ''3''), (post 13 2, PyInt 0)] \<and>
   ledger (snd (checkFavorites favorite_remote 50 favorite_world)) (str_int (item_id (post 14 0)))
     = ledger favorite_world (str_int (item_id (post 14 0))) \<and>
   trace (snd (checkFavorites favorite_remote 50 favorite_world)) =
     [Request UserTimeline None 50, Write Favorites_ini,
      HandleFavorite (post 11 5) (PyStr ''3''), HandleFavorite (post 13 2) (PyInt 0)]"
proof -
  have h: "checkFavorites favorite_remote 50 favorite_world =
     (Inr [(post 11 5, PyStr ''3''), (post 13 2, PyInt 0)],
      snd (checkFavorites favorite_remote 50 favorite_world))"
    using checkFavorites_example by (simp add: prod_eq_iff)
  have i: "items (held (user_timeline favorite_remote)) (breaks (user_timeline favorite_remote)) 50
      = ([post 11 5, post 12 3, post 13 2, post 14 0], None)"
    by (simp add: items_def favorite_remote_def)
  have d: "distinct (map item_id [post 11 5, post 12 3, post 13 2, post 14 0])"
    by (simp add: post_def)
  have m11: "post 11 5 \<in> set [post 11 5, post 12 3, post 13 2, post 14 0]"
    and m12: "post 12 3 \<in> set [post 11 5, post 12 3, post 13 2, post 14 0]"
    and m13: "post 13 2 \<in> set [post 11 5, post 12 3, post 13 2, post 14 0]"
    and m14: "post 14 0 \<in> set [post 11 5, post 12 3, post 13 2, post 14 0]"
    by simp_all
  have p11: "0 < favorite_count (post 11 5)" "(3::int) \<noteq> favorite_count (post 11 5)"
    and p13: "0 < favorite_count (post 13 2)"
    and p14: "favorite_count (post 14 0) \<le> 0"
    by (simp_all add: post_def)
  have k11: "known_favorites (ledger favorite_world) (post 11 5) = Inr (PyStr (str_int 3))"
    and k12: "known_favorites (ledger favorite_world) (post 12 3)
                = Inr (PyStr (str_int (favorite_count (post 12 3))))"
    and k13: "known_favorites (ledger favorite_world) (post 13 2) = Inr (PyInt 0)"
    by (simp_all add: favorite_defs)
  have e: "ensure_connected favorite_remote favorite_world = (Inr (), favorite_world)"
    by (simp add: ensure_connected_def favorite_world_def example_world_def)
  have t: "trace favorite_world = []"
    by (simp add: favorite_world_def example_world_def)
  note c11 = checkFavorites_change_detection [OF h i d m11, of 3]
  note c12 = checkFavorites_change_detection [OF h i d m12, of 3]
  note c13 = checkFavorites_change_detection [OF h i d m13, of 3]
  note c14 = checkFavorites_change_detection [OF h i d m14, of 3]
  from c11 p11 k11 have r11:
    "(post 11 5, PyStr (str_int 3)) \<in> set [(post 11 5, PyStr ''3''), (post 13 2, PyInt 0)]"
    "known_favorites (ledger (snd (checkFavorites favorite_remote 50 favorite_world))) (post 11 5)
       = Inr (PyStr (str_int (favorite_count (post 11 5))))"
    by blast+
  from c12 k12 have r12:
    "post 12 3 \<notin> fst ` set [(post 11 5, PyStr ''3''), (post 13 2, PyInt 0)]"
    by blast
  from c13 p13 k13 have r13:
    "(post 13 2, PyInt 0) \<in> set [(post 11 5, PyStr ''3''), (post 13 2, PyInt 0)]"
    "known_favorites (ledger (snd (checkFavorites favorite_remote 50 favorite_world))) (post 13 2)
       = Inr (PyStr (str_int (favorite_count (post 13 2))))"
    by blast+
  from c14 p14 have r14:
    "post 14 0 \<notin> fst ` set [(post 11 5, PyStr ''3''), (post 13 2, PyInt 0)]"
    "ledger (snd (checkFavorites favorite_remote 50 favorite_world))
       (str_int (item_id (post 14 0)))
     = ledger favorite_world (str_int (item_id (post 14 0)))"
    by blast+
  from c11 have events:
    "trace (snd (checkFavorites favorite_remote 50 favorite_world)) =
       [Request UserTimeline None 50, Write Favorites_ini,
        HandleFavorite (post 11 5) (PyStr ''3''), HandleFavorite (post 13 2) (PyInt 0)]"
    by (simp add: e t)
  from h i d m11 p11 k11 r11 k12 r12 p13 k13 r13 p14 r14 events show ?thesis
    by (simp only:) simp
qed

section \<open>The checks that sort: \<open>checkDirectMessages\<close>\<close>

lemma set_sort_desc [simp]: "set (sort_desc xs) = set xs"
  by (simp add: sort_desc_def)

lemma sort_desc_Nil_iff [simp]: "sort_desc xs = [] \<longleftrightarrow> xs = []"
  by (metis set_sort_desc set_empty)

lemma sort_desc_descending: "sorted_wrt (\<lambda>a b. item_id a \<ge> item_id b) (sort_desc xs)"
proof -
  have "sorted (map (\<lambda>x. - item_id x) (sort_desc xs))"
    by (simp add: sort_desc_def)
  then show ?thesis
    by (simp add: sorted_map sorted_wrt_iff_nth_less)
qed

lemma hd_sort_desc_Max:
  assumes "xs \<noteq> []"
  shows "item_id (hd (sort_desc xs)) = Max (item_id ` set xs)"
proof -
  from assms obtain y ys where ys: "sort_desc xs = y # ys"
    by (cases "sort_desc xs") auto
  with sort_desc_descending [of xs] have le: "\<forall>z \<in> set ys. item_id z \<le> item_id y"
    by simp
  have set: "set xs = insert y (set ys)"
    using set_sort_desc [of xs] by (simp add: ys)
  have "Max (item_id ` set xs) = item_id y"
    by (rule Max_eqI) (use le set in auto)
  then show ?thesis by (simp add: ys)
qed

text \<open>
  What \<open>checkDirectMessages\<close> does with a fetch that yields \<open>fetched\<close> and does not fail: the
  result is \<open>fetched\<close> in descending order of identifier; the events are the request, the
  write of \<open>latest.ini\<close> if there is anything new, and then one call of \<open>handleDM\<close> per
  message in that order; and the marker is the largest identifier fetched.
\<close>

lemma checkDirectMessages_sorts:
  assumes "ensure_connected rem w = (Inr (), w1)"
    and "loadLatest ''DirectMessages'' w1 = (Inr (since, config), w2)"
    and "cursor (direct_messages rem) since n = (fetched, None)"
    and "checkDirectMessages rem n f w = (r, w')"
  shows "r = Inr (sort_desc fetched)"
    and "trace w' = trace w2 @ [Request DirectMessages since n] @
           (if fetched = [] then [] else [Write Latest_ini]) @ map HandleDM (sort_desc fetched)"
    and "sorted_wrt (\<lambda>a b. item_id a \<ge> item_id b) (sort_desc fetched)"
    and "fetched \<noteq> [] \<Longrightarrow>
           marker ''DirectMessages'' w' = Some (str_int (Max (item_id ` set fetched)))"
    and "fetched = [] \<Longrightarrow> latest_file w' = latest_file w2"
proof -
  from assms have r: "r = Inr (sort_desc fetched)" and
    w': "w' = notify HandleDM (sort_desc fetched)
               (saveLatest ''DirectMessages'' config (sort_desc fetched)
                  (emit (Request DirectMessages since n) w2))"
    by (simp_all add: checkDirectMessages_def dm_except_def Let_def)
  show "r = Inr (sort_desc fetched)" by (rule r)
  show "trace w' = trace w2 @ [Request DirectMessages since n] @
           (if fetched = [] then [] else [Write Latest_ini]) @ map HandleDM (sort_desc fetched)"
    by (simp add: w' trace_saveLatest)
  show "sorted_wrt (\<lambda>a b. item_id a \<ge> item_id b) (sort_desc fetched)"
    by (rule sort_desc_descending)
  show "marker ''DirectMessages'' w' = Some (str_int (Max (item_id ` set fetched)))"
    if "fetched \<noteq> []"
  proof -
    from that obtain y ys where ys: "sort_desc fetched = y # ys"
      by (cases "sort_desc fetched") auto
    with hd_sort_desc_Max [OF that] have "item_id y = Max (item_id ` set fetched)" by simp
    then show ?thesis
      by (simp add: w' marker_def latest_file_saveLatest ys)
  qed
  show "latest_file w' = latest_file w2" if "fetched = []"
    using that by (simp add: w' latest_file_saveLatest sort_desc_def)
qed

text \<open>
  The remote lists nothing for a marker that is at least as large as every identifier it
  holds, so the next run has nothing new.
\<close>

lemma cursor_nothing_newer:
  assumes "\<forall>x \<in> set (held f). item_id x \<le> m" and "breaks f = None"
  shows "cursor f (Some (str_int m)) n = ([], None)"
proof -
  have "filter (\<lambda>x. m < item_id x) (held f) = []"
    using assms(1) by (auto simp: filter_empty_conv)
  then show ?thesis
    using assms(2) by (simp add: cursor_def listed_def py_int_str_int items_def)
qed

end
